theory Spec2Isabelle
  imports Complex_Main
begin

section \<open>Data model\<close>

text \<open>
  The notebooks work on one table of transactions, loaded from
  \<^verbatim>\<open>cleaned_sales_data.csv\<close>. A row is a record with the columns the
  notebooks read. An order date is a calendar day, counted as a day number; the
  difference of two dates is then the \<^verbatim>\<open>.days\<close> of the Python timedelta.
  Prices are real numbers: the arithmetic of the metrics is the exact one, and
  the places where binary floating point changes an outcome (the product with
  0.8 in the split, the division by zero in MAPE) are modelled on their own.
\<close>

type_synonym date = int

record transaction =
  order_id :: nat
  order_date :: date
  customer_id :: nat
  product_id :: nat
  category :: string
  price :: real
  quantity :: real

text \<open>A pandas Series with a date index: the rows in index order.\<close>

type_synonym 'a series = "(date \<times> 'a) list"

datatype error = ValueError | ZeroDivisionError

section \<open>Daily sales series (sales forecasting notebook, cell "Data Preparation")\<close>

text \<open>
  \<^verbatim>\<open>df.groupby('order_date')['price'].sum()\<close>: one row per distinct order
  date, in increasing date order (groupby sorts its keys), carrying the sum of
  the prices of that date's rows.
\<close>

definition groupby_sum :: "transaction list \<Rightarrow> real series" where
  "groupby_sum df =
     map (\<lambda>d. (d, sum_list (map price (filter (\<lambda>t. order_date t = d) df))))
         (sort (remdups (map order_date df)))"

text \<open>\<^verbatim>\<open>pd.date_range(lo, hi)\<close>: every day from lo to hi, both included.\<close>

definition date_range :: "date \<Rightarrow> date \<Rightarrow> date list" where
  "date_range lo hi = [lo..hi]"

text \<open>
  \<^verbatim>\<open>s.reindex(idx, fill_value=v)\<close>: one row per label of idx, with the
  value s has at that label, and v where s has no such label.
\<close>

definition reindex :: "date list \<Rightarrow> 'a \<Rightarrow> 'a series \<Rightarrow> 'a series" where
  "reindex idx fill s =
     map (\<lambda>d. (d, case map_of s d of Some v \<Rightarrow> v | None \<Rightarrow> fill)) idx"

text \<open>
  The whole cell. On an empty table the index minimum and maximum are NaT and
  \<^verbatim>\<open>pd.date_range\<close> raises ValueError; there is no other check.
\<close>

definition daily_sales :: "transaction list \<Rightarrow> error + real series" where
  "daily_sales df =
     (if df = [] then Inl ValueError
      else let g = groupby_sum df;
               idx = date_range (Min (set (map fst g))) (Max (set (map fst g)))
           in Inr (reindex idx 0 g))"

section \<open>Train/test split (cell "Model Building")\<close>

text \<open>
  \<^verbatim>\<open>train_size = int(len(daily_sales) * 0.8)\<close> is a product of binary64
  floats. The literal 0.8 is the double 3602879701896397 / 2^52, and the length
  n is converted exactly, so the exact product is m / 2^52 with
  m = n * 3602879701896397. The float product is m rounded to 53 significant
  bits, ties to even; \<^verbatim>\<open>int\<close> truncates it.
\<close>

fun bit_length :: "nat \<Rightarrow> nat" where
  "bit_length n = (if n = 0 then 0 else Suc (bit_length (n div 2)))"

declare bit_length.simps [simp del]

definition round_sig53 :: "nat \<Rightarrow> nat" where
  "round_sig53 m =
     (let s = bit_length m - 53; q = m div 2 ^ s; r = m mod 2 ^ s
      in if 2 * r > 2 ^ s \<or> (2 * r = 2 ^ s \<and> odd q) then (q + 1) * 2 ^ s
         else q * 2 ^ s)"

definition train_size :: "nat \<Rightarrow> nat" where
  "train_size n = round_sig53 (n * 3602879701896397) div 2 ^ 52"

text \<open>\<^verbatim>\<open>daily_sales[:train_size]\<close> and \<^verbatim>\<open>daily_sales[train_size:]\<close>.\<close>

definition train_data :: "'a list \<Rightarrow> 'a list" where
  "train_data s = take (train_size (length s)) s"

definition test_data :: "'a list \<Rightarrow> 'a list" where
  "test_data s = drop (train_size (length s)) s"

section \<open>Moving average (cell "Simple Moving Average")\<close>

text \<open>
  \<^verbatim>\<open>data.rolling(window=window).mean()\<close> with the defaults of pandas: a
  fixed window that ends at the current row, so row i sees the rows
  \<^verbatim>\<open>max(0, i + 1 - window) .. i\<close>; \<^verbatim>\<open>min_periods\<close> is the window, and a row
  with fewer observations, or with none, is NaN (here \<open>None\<close>). A negative
  window raises ValueError. The result keeps the index of the input.
\<close>

definition rolling_mean :: "int \<Rightarrow> real list \<Rightarrow> error + real option list" where
  "rolling_mean window xs =
     (if window < 0 then Inl ValueError
      else Inr (map (\<lambda>i. let start = Suc i - nat window;
                             win = drop start (take (Suc i) xs);
                             nobs = length win
                         in if nat window \<le> nobs \<and> 0 < nobs
                            then Some (sum_list win / real nobs) else None)
                    [0..<length xs]))"

definition calculate_moving_average ::
    "real series \<Rightarrow> int \<Rightarrow> error + real option series" where
  "calculate_moving_average data window =
     (case rolling_mean window (map snd data) of
        Inl e \<Rightarrow> Inl e
      | Inr vs \<Rightarrow> Inr (zip (map fst data) vs))"

section \<open>Model forecasts (cells "Exponential Smoothing" and "SARIMA Model")\<close>

text \<open>
  The fit of a model is the work of the statistics library and is a parameter
  here: given the training values it either fails (\<open>None\<close>, the library
  raises) or yields the fitted model, of which only the k-step-ahead point
  prediction is used. \<^verbatim>\<open>results.forecast(steps)\<close> returns the predictions
  for the steps 1 .. steps after the end of the training index, labelled with
  the following days; with no step to predict the end of the prediction lies
  before its start and the library raises ValueError. A model cannot be built
  on an empty series.
\<close>

type_synonym fit = "real list \<Rightarrow> (nat \<Rightarrow> real) option"

definition forecast :: "fit \<Rightarrow> real series \<Rightarrow> nat \<Rightarrow> error + real series" where
  "forecast fit train steps =
     (if train = [] then Inl ValueError
      else case fit (map snd train) of
             None \<Rightarrow> Inl ValueError
           | Some model \<Rightarrow>
               if steps = 0 then Inl ValueError
               else Inr (map (\<lambda>k. (fst (last train) + int k, model k))
                             [1..<Suc steps]))"

definition hw_predictions :: "fit \<Rightarrow> real series \<Rightarrow> error + real series" where
  "hw_predictions hw_fit s = forecast hw_fit (train_data s) (length (test_data s))"

definition sarima_predictions :: "fit \<Rightarrow> real series \<Rightarrow> error + real series" where
  "sarima_predictions sarima_fit s =
     forecast sarima_fit (train_data s) (length (test_data s))"

definition ma_predictions :: "real series \<Rightarrow> error + real option series" where
  "ma_predictions s = calculate_moving_average (train_data s) 7"

section \<open>Error metrics (cell "Model Evaluation")\<close>

text \<open>
  The values a float64 column can hold after the division in MAPE: a finite
  number, an infinity, or NaN. Dividing by zero raises nothing in numpy and
  pandas: x / 0 is an infinity with the sign of x, and 0 / 0 is NaN.
\<close>

datatype npfloat = Finite real | PosInf | NegInf | NaN

definition np_div :: "real \<Rightarrow> real \<Rightarrow> npfloat" where
  "np_div a b =
     (if b \<noteq> 0 then Finite (a / b)
      else if a = 0 then NaN
      else if 0 < a then PosInf else NegInf)"

fun np_abs :: "npfloat \<Rightarrow> npfloat" where
  "np_abs (Finite x) = Finite \<bar>x\<bar>"
| "np_abs PosInf = PosInf"
| "np_abs NegInf = PosInf"
| "np_abs NaN = NaN"

fun np_add :: "npfloat \<Rightarrow> npfloat \<Rightarrow> npfloat" where
  "np_add NaN _ = NaN"
| "np_add _ NaN = NaN"
| "np_add (Finite x) (Finite y) = Finite (x + y)"
| "np_add PosInf NegInf = NaN"
| "np_add NegInf PosInf = NaN"
| "np_add PosInf _ = PosInf"
| "np_add _ PosInf = PosInf"
| "np_add NegInf _ = NegInf"
| "np_add _ NegInf = NegInf"

fun np_scale :: "npfloat \<Rightarrow> real \<Rightarrow> npfloat" where
  "np_scale (Finite x) c = Finite (x * c)"
| "np_scale PosInf c = (if 0 < c then PosInf else if c < 0 then NegInf else NaN)"
| "np_scale NegInf c = (if 0 < c then NegInf else if c < 0 then PosInf else NaN)"
| "np_scale NaN c = NaN"

text \<open>
  \<^verbatim>\<open>np.mean\<close> of a pandas Series is the Series' own \<^verbatim>\<open>mean\<close>, which
  skips NaN entries; with nothing left the mean is NaN.
\<close>

definition series_mean :: "npfloat list \<Rightarrow> npfloat" where
  "series_mean vs =
     (let ws = filter (\<lambda>v. v \<noteq> NaN) vs
      in if ws = [] then NaN
         else np_scale (foldl np_add (Finite 0) ws) (1 / real (length ws)))"

text \<open>
  \<^verbatim>\<open>mean_absolute_error\<close> and \<^verbatim>\<open>mean_squared_error\<close> of scikit-learn, on
  finite values; both reject inputs of different lengths and empty inputs with
  ValueError. These are the exact values of the two formulas, over the real
  numbers; the rounded computation follows below.
\<close>

definition mean_absolute_error :: "real list \<Rightarrow> real list \<Rightarrow> error + real" where
  "mean_absolute_error actual predicted =
     (if length actual \<noteq> length predicted \<or> actual = [] then Inl ValueError
      else Inr (sum_list (map (\<lambda>(a, p). \<bar>a - p\<bar>) (zip actual predicted))
                / real (length actual)))"

definition mean_squared_error :: "real list \<Rightarrow> real list \<Rightarrow> error + real" where
  "mean_squared_error actual predicted =
     (if length actual \<noteq> length predicted \<or> actual = [] then Inl ValueError
      else Inr (sum_list (map (\<lambda>(a, p). (a - p)\<^sup>2) (zip actual predicted))
                / real (length actual)))"

definition calculate_metrics ::
    "real list \<Rightarrow> real list \<Rightarrow> error + (real \<times> real \<times> npfloat)" where
  "calculate_metrics actual predicted =
     (case mean_absolute_error actual predicted of
        Inl e \<Rightarrow> Inl e
      | Inr mae \<Rightarrow>
          (case mean_squared_error actual predicted of
             Inl e \<Rightarrow> Inl e
           | Inr mse \<Rightarrow>
               let rmse = sqrt mse;
                   mape = np_scale (series_mean
                            (map (\<lambda>(a, p). np_abs (np_div (a - p) a))
                                 (zip actual predicted))) 100
               in Inr (mae, rmse, mape)))"

text \<open>
  The same metrics as the machine computes them, in binary64. A float64 value
  is a real number, an infinity or NaN; the two signed zeros are not told
  apart. \<^verbatim>\<open>f64\<close> rounds a real number to the nearest double, ties to the
  even mantissa: 53 bits of mantissa, least exponent -1022 (below it the
  spacing of the doubles stays 2^-1074), and an infinity from 2^1024 on.
\<close>

definition round_even :: "real \<Rightarrow> int" where
  "round_even y =
     (let f = \<lfloor>y\<rfloor>; r = y - of_int f
      in if r < 1 / 2 then f
         else if 1 / 2 < r then f + 1
         else if even f then f else f + 1)"

definition f64 :: "real \<Rightarrow> npfloat" where
  "f64 x =
     (if x = 0 then Finite 0
      else let e = max \<lfloor>log 2 \<bar>x\<bar>\<rfloor> (- 1022);
               ulp = 2 powi (e - 52);
               y = of_int (round_even (\<bar>x\<bar> / ulp)) * ulp
           in if 2 ^ 1024 \<le> y then (if 0 < x then PosInf else NegInf)
              else Finite (sgn x * y))"

text \<open>
  The float64 operations the metrics use: addition, \<^verbatim>\<open>** 2\<close>, the division
  of a sum by the number of its terms, and \<^verbatim>\<open>np.sqrt\<close>. Each is the exact
  result rounded once; infinities and NaN follow IEEE 754.
\<close>

fun f64_add :: "npfloat \<Rightarrow> npfloat \<Rightarrow> npfloat" where
  "f64_add (Finite x) (Finite y) = f64 (x + y)"
| "f64_add a b = np_add a b"

fun f64_square :: "npfloat \<Rightarrow> npfloat" where
  "f64_square (Finite x) = f64 (x * x)"
| "f64_square PosInf = PosInf"
| "f64_square NegInf = PosInf"
| "f64_square NaN = NaN"

fun f64_div_count :: "npfloat \<Rightarrow> nat \<Rightarrow> npfloat" where
  "f64_div_count (Finite x) n =
     (if n = 0 then (if x = 0 then NaN else if 0 < x then PosInf else NegInf)
      else f64 (x / real n))"
| "f64_div_count PosInf n = PosInf"
| "f64_div_count NegInf n = NegInf"
| "f64_div_count NaN n = NaN"

fun f64_sqrt :: "npfloat \<Rightarrow> npfloat" where
  "f64_sqrt (Finite x) = (if x < 0 then NaN else f64 (sqrt x))"
| "f64_sqrt PosInf = PosInf"
| "f64_sqrt NegInf = NaN"
| "f64_sqrt NaN = NaN"

text \<open>
  \<^verbatim>\<open>np.add.reduce\<close> over a float64 array, numpy's pairwise summation: fewer
  than 8 terms are added in order, up to 128 terms are added in 8 interleaved
  accumulators that are then combined, and a longer array is split in two
  halves at a multiple of 8. The initial value 0 of the reduction changes
  nothing.
\<close>

function pairwise_sum :: "npfloat list \<Rightarrow> npfloat" where
  "pairwise_sum a =
     (if length a < 8 then foldl f64_add (Finite 0) a
      else if length a \<le> 128 then
        (let m = length a - length a mod 8;
             r = map (\<lambda>j. foldl f64_add (a ! j) (map (\<lambda>i. a ! (8 * i + j)) [1..<m div 8]))
                     [0..<8];
             res = f64_add (f64_add (f64_add (r ! 0) (r ! 1)) (f64_add (r ! 2) (r ! 3)))
                           (f64_add (f64_add (r ! 4) (r ! 5)) (f64_add (r ! 6) (r ! 7)))
         in foldl f64_add res (drop m a))
      else
        (let n2 = length a div 2 - (length a div 2) mod 8
         in f64_add (pairwise_sum (take n2 a)) (pairwise_sum (drop n2 a))))"
  by pat_completeness auto

termination
  by (relation "measure length") (auto simp: Let_def)

declare pairwise_sum.simps [simp del]

text \<open>
  \<^verbatim>\<open>np.average(np.abs(y_pred - y_true), axis=0)\<close> and
  \<^verbatim>\<open>np.average((y_true - y_pred) ** 2, axis=0)\<close> of scikit-learn, and the
  notebook's \<^verbatim>\<open>np.sqrt\<close> of the latter. The inputs of the program are
  doubles; the average over the single output column changes nothing.
\<close>

definition mean_absolute_error_f64 :: "real list \<Rightarrow> real list \<Rightarrow> error + npfloat" where
  "mean_absolute_error_f64 actual predicted =
     (if length actual \<noteq> length predicted \<or> actual = [] then Inl ValueError
      else Inr (f64_div_count
                  (pairwise_sum (map (\<lambda>(a, p). np_abs (f64 (p - a))) (zip actual predicted)))
                  (length actual)))"

definition mean_squared_error_f64 :: "real list \<Rightarrow> real list \<Rightarrow> error + npfloat" where
  "mean_squared_error_f64 actual predicted =
     (if length actual \<noteq> length predicted \<or> actual = [] then Inl ValueError
      else Inr (f64_div_count
                  (pairwise_sum (map (\<lambda>(a, p). f64_square (f64 (a - p))) (zip actual predicted)))
                  (length actual)))"

definition calculate_metrics_f64 ::
    "real list \<Rightarrow> real list \<Rightarrow> error + (npfloat \<times> npfloat)" where
  "calculate_metrics_f64 actual predicted =
     (case mean_absolute_error_f64 actual predicted of
        Inl e \<Rightarrow> Inl e
      | Inr mae \<Rightarrow>
          (case mean_squared_error_f64 actual predicted of
             Inl e \<Rightarrow> Inl e
           | Inr mse \<Rightarrow> Inr (mae, f64_sqrt mse)))"

text \<open>A float64 value that is not negative: a real number from 0 on, or +inf.\<close>

definition np_nonneg :: "npfloat \<Rightarrow> bool" where
  "np_nonneg v = (case v of Finite x \<Rightarrow> 0 \<le> x | PosInf \<Rightarrow> True | _ \<Rightarrow> False)"

text \<open>The comparison table and the file \<^verbatim>\<open>model_metrics.csv\<close>.\<close>

record metrics_row =
  Model :: string
  MAE :: real
  RMSE :: real
  MAPE :: npfloat

definition metrics_df :: "fit \<Rightarrow> fit \<Rightarrow> real series \<Rightarrow> error + metrics_row list" where
  "metrics_df hw_fit sarima_fit s =
     (case hw_predictions hw_fit s of
        Inl e \<Rightarrow> Inl e
      | Inr hw \<Rightarrow>
     (case sarima_predictions sarima_fit s of
        Inl e \<Rightarrow> Inl e
      | Inr sarima \<Rightarrow>
     (case calculate_metrics (map snd (test_data s)) (map snd hw) of
        Inl e \<Rightarrow> Inl e
      | Inr (hw_mae, hw_rmse, hw_mape) \<Rightarrow>
     (case calculate_metrics (map snd (test_data s)) (map snd sarima) of
        Inl e \<Rightarrow> Inl e
      | Inr (sarima_mae, sarima_rmse, sarima_mape) \<Rightarrow>
          Inr [\<lparr>Model = ''Holt-Winters'', MAE = hw_mae, RMSE = hw_rmse, MAPE = hw_mape\<rparr>,
               \<lparr>Model = ''SARIMA'', MAE = sarima_mae, RMSE = sarima_rmse,
                MAPE = sarima_mape\<rparr>]))))"


section \<open>Seasonal decomposition (cell "Time Series Decomposition")\<close>

text \<open>
  \<^verbatim>\<open>seasonal_decompose(x, period=p)\<close> of statsmodels, additive model with
  its defaults. It raises ValueError on a series shorter than two full periods
  (and a period of 0 ends in an integer division by zero when the seasonal
  means are repeated). Otherwise the trend is the centred moving average of one period (NaN, here
  \<open>None\<close>, for the first and last \<open>p div 2\<close> rows; an even period gives the
  two end weights one half each), the seasonal component repeats the means of
  the detrended rows of each position in the period (NaN rows skipped), centred
  on zero, and the residual is what is left.
\<close>

record decomposition =
  trend :: "real option list"
  seasonal :: "real option list"
  resid :: "real option list"

definition filt :: "nat \<Rightarrow> real list" where
  "filt period =
     map (\<lambda>w. w / real period)
         (if even period then [1 / 2] @ replicate (period - 1) 1 @ [1 / 2]
          else replicate period 1)"

definition convolution_filter :: "real list \<Rightarrow> nat \<Rightarrow> real option list" where
  "convolution_filter x period =
     (let half = period div 2; w = filt period
      in map (\<lambda>t. if half \<le> t \<and> t + half < length x
                    then Some (sum_list (map (\<lambda>(c, v). c * v)
                                 (zip w (drop (t - half) x))))
                    else None)
             [0..<length x])"

definition nanmean :: "real option list \<Rightarrow> real option" where
  "nanmean vs =
     (let ws = concat (map (\<lambda>v. case v of None \<Rightarrow> [] | Some y \<Rightarrow> [y]) vs)
      in if ws = [] then None else Some (sum_list ws / real (length ws)))"

definition seasonal_mean :: "real option list \<Rightarrow> nat \<Rightarrow> real option list" where
  "seasonal_mean x period =
     map (\<lambda>i. nanmean (map (\<lambda>t. x ! t)
                  (filter (\<lambda>t. t mod period = i) [0..<length x])))
         [0..<period]"

definition opt_minus :: "real option \<Rightarrow> real option \<Rightarrow> real option" where
  "opt_minus a b =
     (case a of None \<Rightarrow> None
      | Some u \<Rightarrow> (case b of None \<Rightarrow> None | Some v \<Rightarrow> Some (u - v)))"

definition seasonal_decompose :: "real list \<Rightarrow> nat \<Rightarrow> error + decomposition" where
  "seasonal_decompose x period =
     (if length x < 2 * period then Inl ValueError
      else if period = 0 then Inl ZeroDivisionError
      else let tr = convolution_filter x period;
               detrended = map (\<lambda>(v, t). opt_minus (Some v) t) (zip x tr);
               avgs = seasonal_mean detrended period;
               centre = (if None \<in> set avgs then None
                         else Some (sum_list (map the avgs) / real period));
               period_averages = map (\<lambda>a. opt_minus a centre) avgs;
               seas = map (\<lambda>t. period_averages ! (t mod period)) [0..<length x]
           in Inr \<lparr>trend = tr, seasonal = seas,
                   resid = map (\<lambda>(d, s). opt_minus d s) (zip detrended seas)\<rparr>)"

text \<open>
  The preparation of the time series as the notebook runs it: the daily series,
  then its decomposition with a period of 7 days. An exception of either step
  stops the notebook.
\<close>

definition time_series_preparation ::
    "transaction list \<Rightarrow> error + (real series \<times> decomposition)" where
  "time_series_preparation df =
     (case daily_sales df of
        Inl e \<Rightarrow> Inl e
      | Inr s \<Rightarrow>
          (case seasonal_decompose (map snd s) 7 of
             Inl e \<Rightarrow> Inl e
           | Inr d \<Rightarrow> Inr (s, d)))"

section \<open>RFM values and scores (customer segmentation notebook, cell "RFM Analysis")\<close>

record rfm_row =
  customer :: nat
  recency :: int
  frequency :: nat
  monetary :: real

text \<open>
  One row per customer, in increasing order of the customer id: the days from
  the customer's latest order to the latest order of the whole table, the
  number of the customer's rows, and the sum of their prices.
\<close>

definition rfm :: "transaction list \<Rightarrow> rfm_row list" where
  "rfm df =
     (let current_date = Max (set (map order_date df))
      in map (\<lambda>c. let x = filter (\<lambda>t. customer_id t = c) df
                  in \<lparr>customer = c,
                      recency = current_date - Max (set (map order_date x)),
                      frequency = length x,
                      monetary = sum_list (map price x)\<rparr>)
             (sort (remdups (map customer_id df))))"

text \<open>
  \<^verbatim>\<open>Series.quantile(p)\<close> with linear interpolation: on the sorted values,
  position \<open>(n - 1) * p\<close>, interpolated between its two neighbours.
\<close>

definition quantile :: "real list \<Rightarrow> real \<Rightarrow> real" where
  "quantile x p =
     (let s = sort x; n = length s;
          pos = real (n - 1) * p;
          lo = nat \<lfloor>pos\<rfloor>;
          hi = min (lo + 1) (n - 1);
          g = pos - real lo
      in s ! lo + (s ! hi - s ! lo) * g)"

text \<open>\<^verbatim>\<open>bins.searchsorted(v, side='left')\<close>: the number of leading edges below v.\<close>

definition searchsorted :: "real list \<Rightarrow> real \<Rightarrow> nat" where
  "searchsorted bins v = length (takeWhile (\<lambda>b. b < v) bins)"

text \<open>
  The exact quantile edges 0, 1/q, ..., 1 of x.
\<close>

definition bin_edges :: "real list \<Rightarrow> nat \<Rightarrow> real list" where
  "bin_edges x q = map (\<lambda>i. quantile x (real i / real q)) [0..<Suc q]"

definition bin_id :: "real list \<Rightarrow> real \<Rightarrow> nat" where
  "bin_id bins v = (if v = bins ! 0 then 1 else searchsorted bins v)"

text \<open>
  The cut of pandas along given edges, as \<^verbatim>\<open>qcut\<close> calls it (right-closed
  bins, the lowest edge included, duplicate edges refused): edges that are not
  all different raise ValueError ("Bin edges must be unique"), as does a list
  of labels of the wrong length. A value falls into the bin whose right edge is
  the first edge not below it, the lowest edge belonging to the first bin; its
  score is the label of that bin. A value outside every bin gets no label.
\<close>

definition bins_to_cuts :: "real list \<Rightarrow> 'l list \<Rightarrow> real list \<Rightarrow> error + 'l option list" where
  "bins_to_cuts bins labels x =
     (if \<not> distinct bins \<and> length bins \<noteq> 2 then Inl ValueError
      else if length labels \<noteq> length bins - 1 then Inl ValueError
      else Inr (map (\<lambda>v. let ids = bin_id bins v
                        in if ids = 0 \<or> ids = length bins then None
                           else Some (labels ! (ids - 1)))
                   x))"

text \<open>
  \<^verbatim>\<open>pd.qcut(x, q, labels)\<close>: the bin edges are the quantiles 0, 1/q, ..., 1
  of x, and x is cut along them. An empty x has NaN edges only, which are not
  unique. pandas computes the edges in binary64, from the fractions of
  \<^verbatim>\<open>np.linspace(0, 1, q + 1)\<close>; the edge computation is therefore a parameter
  of the cut, and \<open>qcut\<close> is the cut along the exact edges.
\<close>

type_synonym edges = "real list \<Rightarrow> nat \<Rightarrow> real list"

definition qcut_with :: "edges \<Rightarrow> real list \<Rightarrow> nat \<Rightarrow> 'l list \<Rightarrow> error + 'l option list" where
  "qcut_with E x q labels =
     (if x = [] then Inl ValueError else bins_to_cuts (E x q) labels x)"

definition qcut :: "real list \<Rightarrow> nat \<Rightarrow> 'l list \<Rightarrow> error + 'l option list" where
  "qcut x q labels = qcut_with bin_edges x q labels"

fun str_nat :: "nat \<Rightarrow> string" where
  "str_nat n =
     (if n < 10 then [''0123456789'' ! n]
      else str_nat (n div 10) @ [''0123456789'' ! (n mod 10)])"

declare str_nat.simps [simp del]

definition score_str :: "nat option \<Rightarrow> string" where
  "score_str v = (case v of None \<Rightarrow> ''nan'' | Some k \<Rightarrow> str_nat k)"

record rfm_score_row = rfm_row +
  recency_score :: "nat option"
  frequency_score :: "nat option"
  monetary_score :: "nat option"
  rfm_score :: string

text \<open>
  The three metrics are scored one after the other, recency with the labels
  in decreasing order; the first ValueError of a \<^verbatim>\<open>qcut\<close> ends the cell.
\<close>

definition rfm_scores_with :: "edges \<Rightarrow> transaction list \<Rightarrow> error + rfm_score_row list" where
  "rfm_scores_with E df =
     (let r = rfm df in
      case qcut_with E (map (\<lambda>c. real_of_int (recency c)) r) 5 [5, 4, 3, 2, 1 :: nat] of
        Inl e \<Rightarrow> Inl e
      | Inr rs \<Rightarrow>
     (case qcut_with E (map (\<lambda>c. real (frequency c)) r) 5 [1, 2, 3, 4, 5 :: nat] of
        Inl e \<Rightarrow> Inl e
      | Inr fs \<Rightarrow>
     (case qcut_with E (map monetary r) 5 [1, 2, 3, 4, 5 :: nat] of
        Inl e \<Rightarrow> Inl e
      | Inr ms \<Rightarrow>
          Inr (map (\<lambda>(c, rs', fs', ms').
                      \<lparr>customer = customer c, recency = recency c,
                       frequency = frequency c, monetary = monetary c,
                       recency_score = rs', frequency_score = fs',
                       monetary_score = ms',
                       rfm_score = score_str rs' @ score_str fs' @ score_str ms'\<rparr>)
                   (zip r (zip rs (zip fs ms)))))))"

definition rfm_scores :: "transaction list \<Rightarrow> error + rfm_score_row list" where
  "rfm_scores df = rfm_scores_with bin_edges df"

section \<open>The daily series is complete\<close>

lemma groupby_sum_keys: "map fst (groupby_sum df) = sort (remdups (map order_date df))"
  by (simp add: groupby_sum_def comp_def)

lemma groupby_sum_lookup:
  "map_of (groupby_sum df) d =
     (if d \<in> order_date ` set df
      then Some (sum_list (map price (filter (\<lambda>t. order_date t = d) df))) else None)"
  by (simp add: groupby_sum_def map_of_map_restrict restrict_map_def)

lemma sum_list_no_rows:
  "d \<notin> order_date ` set df \<Longrightarrow> sum_list (map price (filter (\<lambda>t. order_date t = d) df)) = 0"
proof -
  assume "d \<notin> order_date ` set df"
  then have "filter (\<lambda>t. order_date t = d) df = []"
    by (auto simp: filter_empty_conv)
  then show ?thesis by simp
qed

lemma reindex_groupby_value:
  "reindex idx 0 (groupby_sum df) =
     map (\<lambda>d. (d, sum_list (map price (filter (\<lambda>t. order_date t = d) df)))) idx"
  by (simp add: reindex_def groupby_sum_lookup sum_list_no_rows)

lemma daily_sales_rows:
  assumes "df \<noteq> []"
  shows "daily_sales df =
     Inr (map (\<lambda>d. (d, sum_list (map price (filter (\<lambda>t. order_date t = d) df))))
              [Min (order_date ` set df)..Max (order_date ` set df)])"
proof -
  have keys: "set (map fst (groupby_sum df)) = order_date ` set df"
    by (simp only: groupby_sum_keys) simp
  show ?thesis
    using assms
    by (simp add: daily_sales_def Let_def keys date_range_def reindex_groupby_value
        del: set_map)
qed

lemma daily_sales_length:
  assumes "df \<noteq> []"
  shows "\<exists>s. daily_sales df = Inr s
     \<and> int (length s) = Max (order_date ` set df) - Min (order_date ` set df) + 1"
proof -
  have "finite (order_date ` set df)" "order_date ` set df \<noteq> {}"
    using assms by simp_all
  then have "Min (order_date ` set df) \<le> Max (order_date ` set df)"
    by (meson Min_in Max_ge)
  then show ?thesis by (simp add: daily_sales_rows [OF assms])
qed

text \<open>
  Claim C1. For a non-empty table the daily sales series exists, has
  (max date - min date) + 1 rows, one for each calendar day from the first to
  the last order date in order and without a gap, each carrying the sum of the
  prices of that day's orders, which is 0 on a day without orders.
\<close>

theorem daily_sales_complete:
  assumes "df \<noteq> []"
  shows "\<exists>s. daily_sales df = Inr s
     \<and> int (length s) = Max (order_date ` set df) - Min (order_date ` set df) + 1
     \<and> map fst s = [Min (order_date ` set df)..Max (order_date ` set df)]
     \<and> (\<forall>i < length s. fst (s ! i) = Min (order_date ` set df) + int i)
     \<and> (\<forall>(d, v) \<in> set s. v = sum_list (map price (filter (\<lambda>t. order_date t = d) df)))
     \<and> (\<forall>(d, v) \<in> set s. d \<notin> order_date ` set df \<longrightarrow> v = 0)"
proof -
  define lo where "lo = Min (order_date ` set df)"
  define hi where "hi = Max (order_date ` set df)"
  define s where "s = map (\<lambda>d. (d, sum_list (map price (filter (\<lambda>t. order_date t = d) df)))) [lo..hi]"
  have keys: "set (map fst (groupby_sum df)) = order_date ` set df"
    by (simp only: groupby_sum_keys) simp
  have ds: "daily_sales df = Inr s"
    using assms
    by (simp add: daily_sales_def Let_def keys date_range_def reindex_groupby_value
        s_def lo_def hi_def del: set_map)
  have fin: "finite (order_date ` set df)" "order_date ` set df \<noteq> {}"
    using assms by simp_all
  then have le: "lo \<le> hi" unfolding lo_def hi_def by (meson Min_in Max_ge)
  have len: "int (length s) = hi - lo + 1" using le by (simp add: s_def)
  have idx: "map fst s = [lo..hi]" by (simp add: s_def comp_def)
  have nth: "\<forall>i < length s. fst (s ! i) = lo + int i"
  proof (intro allI impI)
    fix i assume "i < length s"
    then have "i < length [lo..hi]" by (simp add: s_def)
    then have "[lo..hi] ! i = lo + int i" by simp
    moreover have "fst (s ! i) = map fst s ! i" using \<open>i < length s\<close> by simp
    ultimately show "fst (s ! i) = lo + int i" by (simp only: idx)
  qed
  have val: "\<forall>(d, v) \<in> set s. v = sum_list (map price (filter (\<lambda>t. order_date t = d) df))"
    by (auto simp: s_def)
  have zero: "\<forall>(d, v) \<in> set s. d \<notin> order_date ` set df \<longrightarrow> v = 0"
    using val sum_list_no_rows by fastforce
  from ds len idx nth val zero show ?thesis
    unfolding lo_def hi_def by blast
qed

theorem daily_sales_complete_witness:
  "[\<lparr>order_id = 1, order_date = 3, customer_id = 1, product_id = 1, category = ''a'',
      price = 2, quantity = 1\<rparr>,
    \<lparr>order_id = 2, order_date = 6, customer_id = 2, product_id = 1, category = ''a'',
      price = 5, quantity = 1\<rparr>] \<noteq> []
   \<and> daily_sales
       [\<lparr>order_id = 1, order_date = 3, customer_id = 1, product_id = 1, category = ''a'',
          price = 2, quantity = 1\<rparr>,
        \<lparr>order_id = 2, order_date = 6, customer_id = 2, product_id = 1, category = ''a'',
          price = 5, quantity = 1\<rparr>]
     = Inr [(3, 2), (4, 0), (5, 0), (6, 5)]"
proof -
  let ?df = "[\<lparr>order_id = 1, order_date = 3, customer_id = 1, product_id = 1, category = ''a'',
      price = 2, quantity = 1\<rparr>,
    \<lparr>order_id = 2, order_date = 6, customer_id = 2, product_id = 1, category = ''a'',
      price = 5, quantity = 1::real\<rparr>]"
  have ne: "?df \<noteq> []" by simp
  from daily_sales_complete [OF ne] obtain s where
    s: "daily_sales ?df = Inr s"
    and idx: "map fst s = [Min (order_date ` set ?df)..Max (order_date ` set ?df)]"
    and val: "\<forall>(d, v) \<in> set s. v = sum_list (map price (filter (\<lambda>t. order_date t = d) ?df))"
    by blast
  have "map fst s = [3, 4, 5, 6]" using idx by (simp add: upto_rec1)
  then obtain a b c d where sh: "s = [(3, a), (4, b), (5, c), (6, d)]"
    by (auto simp: map_eq_Cons_conv)
  from val sh have "a = 2" "b = 0" "c = 0" "d = 5" by simp_all
  with sh s show ?thesis by simp
qed

section \<open>The train/test split\<close>

lemma bit_length_bounds: "0 < n \<Longrightarrow> 2 ^ (bit_length n - 1) \<le> n \<and> n < 2 ^ bit_length n"
proof (induction n rule: bit_length.induct)
  case (1 n)
  show ?case
  proof (cases "n div 2 = 0")
    case True
    with 1 have "n = 1" by presburger
    then show ?thesis by (simp add: bit_length.simps[of "Suc 0"] bit_length.simps[of 0])
  next
    case False
    then have pos: "0 < n div 2" by simp
    from 1 have IH: "2 ^ (bit_length (n div 2) - 1) \<le> n div 2 \<and> n div 2 < 2 ^ bit_length (n div 2)"
      using pos by simp
    have bl: "bit_length n = Suc (bit_length (n div 2))" using 1 by (subst bit_length.simps) simp
    have blpos: "0 < bit_length (n div 2)" using pos by (subst bit_length.simps) simp
    then obtain k where k: "bit_length (n div 2) = Suc k" by (cases "bit_length (n div 2)") auto
    from IH k have "2 ^ k \<le> n div 2" "n div 2 < 2 ^ Suc k" by simp_all
    then have "2 * 2 ^ k \<le> n" "n < 2 * 2 ^ Suc k" by presburger+
    then show ?thesis by (simp add: bl k)
  qed
qed

lemma bit_length_le: "m < 2 ^ w \<Longrightarrow> bit_length m \<le> w"
proof (cases "m = 0")
  case True
  then show ?thesis by (simp add: bit_length.simps[of 0])
next
  case False
  assume a: "m < 2 ^ w"
  from False bit_length_bounds[of m] have "2 ^ (bit_length m - 1) \<le> m" by simp
  with a have "(2::nat) ^ (bit_length m - 1) < 2 ^ w" by linarith
  then have "bit_length m - 1 < w" by (simp only: power_strict_increasing_iff)
  then show ?thesis by linarith
qed

lemma round_sig53_ge:
  assumes "a * 2 ^ (bit_length m - 53) \<le> m"
  shows "a * 2 ^ (bit_length m - 53) \<le> round_sig53 m"
proof -
  define s where "s = bit_length m - 53"
  have "a \<le> m div 2 ^ s"
    using assms unfolding s_def by (simp add: less_eq_div_iff_mult_less_eq)
  then have "a * 2 ^ s \<le> (m div 2 ^ s) * 2 ^ s" by simp
  moreover have "(m div 2 ^ s) * 2 ^ s \<le> round_sig53 m"
    by (simp add: round_sig53_def Let_def s_def)
  ultimately show ?thesis unfolding s_def by linarith
qed

lemma round_sig53_le: "2 * round_sig53 m \<le> 2 * m + 2 ^ (bit_length m - 53)"
proof -
  define s where "s = bit_length m - 53"
  define q where "q = m div 2 ^ s"
  define r where "r = m mod 2 ^ s"
  have m: "m = q * 2 ^ s + r" unfolding q_def r_def by (rule div_mult_mod_eq[symmetric])
  have "round_sig53 m = (if 2 * r > 2 ^ s \<or> (2 * r = 2 ^ s \<and> odd q) then (q + 1) * 2 ^ s else q * 2 ^ s)"
    by (simp add: round_sig53_def Let_def s_def q_def r_def)
  then have "2 * round_sig53 m \<le> 2 * m + 2 ^ s"
    using m by (auto simp: algebra_simps split: if_splits)
  then show ?thesis by (simp add: s_def)
qed

lemma train_size_floor:
  assumes "n < 2 ^ 50"
  shows "train_size n = 4 * n div 5"
proof -
  define m where "m = n * 3602879701896397"
  define s where "s = bit_length m - 53"
  define k where "k = 4 * n div 5"
  have n: "n < 1125899906842624" using assms by simp
  have k: "5 * k \<le> 4 * n" "4 * n \<le> 5 * k + 4" unfolding k_def by presburger+
  have m5: "5 * m = 18014398509481985 * n" by (simp add: m_def)
  have "m < 2 ^ 102" using n by (simp add: m_def)
  then have "bit_length m \<le> 102" by (rule bit_length_le)
  then have s: "s \<le> 49" by (simp add: s_def)
  then have p: "(2::nat) ^ s \<le> 2 ^ 49" by (simp only: power_increasing_iff)
  have e: "(2::nat) ^ 52 = 2 ^ (52 - s) * 2 ^ s"
    using s by (simp add: power_add[symmetric])
  have "k * 2 ^ (52 - s) * 2 ^ s \<le> m"
    using k m5 by (simp add: mult.assoc e[symmetric])
  then have "k * 2 ^ (52 - s) * 2 ^ s \<le> round_sig53 m"
    unfolding s_def by (rule round_sig53_ge)
  then have lo: "k * 4503599627370496 \<le> round_sig53 m"
    using e by (simp add: mult.assoc)
  have "2 * round_sig53 m \<le> 2 * m + 2 ^ s"
    unfolding s_def by (rule round_sig53_le)
  with p have "2 * round_sig53 m \<le> 2 * m + 562949953421312" by simp
  with m5 k n have hi: "round_sig53 m < (k + 1) * 4503599627370496" by simp
  from lo hi have "round_sig53 m div 4503599627370496 = k"
    by (simp add: div_nat_eqI)
  then show ?thesis by (simp add: train_size_def m_def k_def)
qed


lemma floor_four_fifths: "\<lfloor>0.8 * real n\<rfloor> = int (4 * n div 5)"
proof -
  have "(0.8::real) * real n = real (4 * n) / real 5" by simp
  then have "\<lfloor>0.8 * real n\<rfloor> = \<lfloor>real (4 * n) / real 5\<rfloor>" by simp
  also have "\<dots> = int (4 * n div 5)" by (simp only: floor_divide_of_nat_eq)
  finally show ?thesis .
qed

text \<open>
  Claim C9. The split takes the first floor(0.8 * n) days of a series of n days
  for training and the remaining n - floor(0.8 * n) days for testing: the
  training part is a prefix, the test part the rest, and the two together are
  the whole series; 100 days give 80 and 20. The length is below 2^50, far
  beyond any table that fits in memory; there the rounded float product and
  the exact one have the same integer part.
\<close>

theorem train_test_split:
  assumes "length s < 2 ^ 50"
  shows "int (length (train_data s)) = \<lfloor>0.8 * real (length s)\<rfloor>
       \<and> int (length (test_data s)) = int (length s) - \<lfloor>0.8 * real (length s)\<rfloor>
       \<and> train_data s = take (length (train_data s)) s
       \<and> test_data s = drop (length (train_data s)) s
       \<and> train_data s @ test_data s = s
       \<and> (length s = 100 \<longrightarrow> length (train_data s) = 80 \<and> length (test_data s) = 20)"
proof -
  have ts: "train_size (length s) = 4 * length s div 5"
    using assms by (rule train_size_floor)
  have le: "4 * length s div 5 \<le> length s" by presburger
  have l1: "length (train_data s) = 4 * length s div 5"
    using le by (simp add: train_data_def ts)
  have l2: "length (test_data s) = length s - 4 * length s div 5"
    by (simp add: test_data_def ts)
  have a: "int (length (train_data s)) = \<lfloor>0.8 * real (length s)\<rfloor>"
    by (simp only: l1 floor_four_fifths)
  have b: "int (length (test_data s)) = int (length s) - \<lfloor>0.8 * real (length s)\<rfloor>"
    using le by (simp only: l2 floor_four_fifths of_nat_diff)
  have c: "train_data s = take (length (train_data s)) s"
    by (simp only: l1) (simp add: train_data_def ts)
  have d: "test_data s = drop (length (train_data s)) s"
    by (simp only: l1) (simp add: test_data_def ts)
  have e: "train_data s @ test_data s = s"
    by (simp add: train_data_def test_data_def)
  have f: "length s = 100 \<longrightarrow> length (train_data s) = 80 \<and> length (test_data s) = 20"
    by (simp add: l1 l2)
  from a b c d e f show ?thesis by blast
qed

theorem train_test_split_witness:
  "length (replicate 100 (0::real)) < 2 ^ 50
   \<and> length (train_data (replicate 100 (0::real))) = 80
   \<and> length (test_data (replicate 100 (0::real))) = 20
   \<and> train_data (replicate 100 (0::real)) @ test_data (replicate 100 0) = replicate 100 0"
proof -
  have h: "length (replicate 100 (0::real)) < 2 ^ 50" by simp
  have len: "length (replicate 100 (0::real)) = 100" by simp
  note t = train_test_split [OF h]
  from t have "train_data (replicate 100 (0::real)) @ test_data (replicate 100 0) = replicate 100 0"
    by blast
  moreover from t len have "length (train_data (replicate 100 (0::real))) = 80
      \<and> length (test_data (replicate 100 (0::real))) = 20"
    by blast
  ultimately show ?thesis using h by blast
qed

section \<open>The moving average\<close>

lemma sum_list_slice:
  assumes "b \<le> length xs"
  shows "sum_list (drop a (take b xs)) = (\<Sum>j = a..<b. (xs ! j :: real))"
proof (cases "a \<le> b")
  case False
  then show ?thesis by simp
next
  case True
  have "sum_list (drop a (take b xs)) = (\<Sum>i = 0..<b - a. drop a (take b xs) ! i)"
    using assms by (simp add: sum_list_sum_nth min_absorb2)
  also have "\<dots> = (\<Sum>i = 0..<b - a. xs ! (i + a))"
    using assms True by (intro sum.cong) (simp_all add: add.commute)
  also have "\<dots> = (\<Sum>j = 0 + a..<(b - a) + a. xs ! j)"
    by (simp only: sum.shift_bounds_nat_ivl)
  also have "\<dots> = (\<Sum>j = a..<b. xs ! j)" using True by simp
  finally show ?thesis .
qed

lemma rolling_mean_nth:
  assumes "0 \<le> w" "t < length xs"
  shows "\<exists>vs. rolling_mean w xs = Inr vs \<and> length vs = length xs
     \<and> vs ! t = (if int t < w - 1 \<or> w = 0 then None
                 else Some ((\<Sum>j = Suc t - nat w..t. xs ! j) / real_of_int w))"
proof -
  define vs where "vs = map (\<lambda>i. let start = Suc i - nat w;
                             win = drop start (take (Suc i) xs);
                             nobs = length win
                         in if nat w \<le> nobs \<and> 0 < nobs
                            then Some (sum_list win / real nobs) else None)
                    [0..<length xs]"
  have r: "rolling_mean w xs = Inr vs" using assms(1) by (simp add: rolling_mean_def vs_def)
  have l: "length vs = length xs" by (simp add: vs_def)
  have "length (take (Suc t) xs) = Suc t" using assms(2) by simp
  then have nobs: "length (drop (Suc t - nat w) (take (Suc t) xs)) = min (Suc t) (nat w)"
    by (simp only: length_drop)
  have v: "vs ! t = (if int t < w - 1 \<or> w = 0 then None
                 else Some ((\<Sum>j = Suc t - nat w..t. xs ! j) / real_of_int w))"
  proof (cases "int t < w - 1 \<or> w = 0")
    case True
    then have "\<not> (nat w \<le> min (Suc t) (nat w) \<and> 0 < min (Suc t) (nat w))"
      using assms(1) by auto
    then show ?thesis using True assms(2) unfolding vs_def
      by (simp only: nth_map length_upt nth_upt Let_def nobs diff_zero add_0 if_False if_True)
  next
    case False
    then have w: "nat w \<le> Suc t" "0 < nat w" using assms(1) by auto
    then have m: "min (Suc t) (nat w) = nat w" by simp
    have "Suc t \<le> length xs" using assms(2) by simp
    then have s: "sum_list (drop (Suc t - nat w) (take (Suc t) xs)) = (\<Sum>j = Suc t - nat w..<Suc t. xs ! j)"
      by (rule sum_list_slice)
    have rw: "real (nat w) = real_of_int w" using assms(1) by simp
    have "vs ! t = Some (sum_list (drop (Suc t - nat w) (take (Suc t) xs)) / real (nat w))"
      using w assms(2) unfolding vs_def
      by (simp only: nth_map length_upt nth_upt Let_def nobs m diff_zero add_0) simp
    then show ?thesis using False
      by (simp only: s rw atLeastLessThanSuc_atLeastAtMost if_False)
  qed
  from r l v show ?thesis by blast
qed

lemma rolling_mean_length:
  "0 \<le> w \<Longrightarrow> \<exists>vs. rolling_mean w xs = Inr vs \<and> length vs = length xs"
  by (simp add: rolling_mean_def)

text \<open>
  Claim C2. For a window w the moving average has one row per input row, on
  the same dates; its first w - 1 rows have no value, and from row w - 1 on the
  value at row t is the arithmetic mean of the input values at the rows
  t - w + 1 .. t. (With w = 0 there is nothing to average and no row has a
  value.)
\<close>

theorem moving_average_window:
  assumes "0 \<le> w"
  shows "\<exists>out. calculate_moving_average data w = Inr out
     \<and> length out = length data
     \<and> map fst out = map fst data
     \<and> (\<forall>t < length data. int t < w - 1 \<longrightarrow> snd (out ! t) = None)
     \<and> (\<forall>t < length data. 1 \<le> w \<and> w - 1 \<le> int t \<longrightarrow>
           snd (out ! t) =
             Some ((\<Sum>j = Suc t - nat w..t. snd (data ! j)) / real_of_int w))
     \<and> (w = 0 \<longrightarrow> (\<forall>t < length data. snd (out ! t) = None))"
proof -
  from rolling_mean_length [OF assms] obtain vs where
    r: "rolling_mean w (map snd data) = Inr vs" and l: "length vs = length data"
    by fastforce
  define out where "out = zip (map fst data) vs"
  have c: "calculate_moving_average data w = Inr out"
    by (simp add: calculate_moving_average_def r out_def)
  have lo: "length out = length data" by (simp add: out_def l)
  have idx: "map fst out = map fst data" by (simp add: out_def l)
  have v: "snd (out ! t) = (if int t < w - 1 \<or> w = 0 then None
                 else Some ((\<Sum>j = Suc t - nat w..t. snd (data ! j)) / real_of_int w))"
    if t: "t < length data" for t
  proof -
    from t have "t < length (map snd data)" by simp
    from rolling_mean_nth [OF assms this] r
    have "vs ! t = (if int t < w - 1 \<or> w = 0 then None
                 else Some ((\<Sum>j = Suc t - nat w..t. map snd data ! j) / real_of_int w))"
      by simp
    moreover have "(\<Sum>j = Suc t - nat w..t. map snd data ! j) = (\<Sum>j = Suc t - nat w..t. snd (data ! j))"
      using t by (intro sum.cong) simp_all
    moreover have "snd (out ! t) = vs ! t" using t l by (simp add: out_def)
    ultimately show ?thesis by simp
  qed
  have a: "\<forall>t < length data. int t < w - 1 \<longrightarrow> snd (out ! t) = None"
    using v by simp
  have b: "\<forall>t < length data. 1 \<le> w \<and> w - 1 \<le> int t \<longrightarrow>
           snd (out ! t) = Some ((\<Sum>j = Suc t - nat w..t. snd (data ! j)) / real_of_int w)"
    using v by simp
  have z: "w = 0 \<longrightarrow> (\<forall>t < length data. snd (out ! t) = None)"
    using v by simp
  from c lo idx a b z show ?thesis by blast
qed

theorem moving_average_window_witness:
  "(0::int) \<le> 3
   \<and> calculate_moving_average [(10, 1), (11, 2), (12, 6), (13, 4)] 3
       = Inr [(10, None), (11, None), (12, Some 3), (13, Some 4)]"
proof -
  let ?d = "[(10, 1), (11, 2), (12, 6), (13, 4)] :: real series"
  have h: "(0::int) \<le> 3" by simp
  from moving_average_window [OF h, of ?d] obtain out where
    c: "calculate_moving_average ?d 3 = Inr out"
    and l: "length out = length ?d"
    and idx: "map fst out = map fst ?d"
    and a: "\<forall>t < length ?d. int t < 3 - 1 \<longrightarrow> snd (out ! t) = None"
    and b: "\<forall>t < length ?d. (1::int) \<le> 3 \<and> 3 - 1 \<le> int t \<longrightarrow>
           snd (out ! t) = Some ((\<Sum>j = Suc t - nat 3..t. snd (?d ! j)) / real_of_int 3)"
    by blast
  from idx obtain p q r s where sh: "out = [(10, p), (11, q), (12, r), (13, s)]"
    by (auto simp: map_eq_Cons_conv)
  from a have "snd (out ! 0) = None" "snd (out ! 1) = None" by simp_all
  with sh have pq: "p = None" "q = None" by simp_all
  have i2: "{Suc 0..2} = {1, 2::nat}" by auto
  have i3: "{2..3} = {2, 3::nat}" by auto
  from b have "snd (out ! 2) = Some ((\<Sum>j = Suc 2 - nat 3..2. snd (?d ! j)) / real_of_int 3)"
    by simp
  then have r: "r = Some 3" using sh by (simp add: atLeast0AtMost atMost_Suc numeral_2_eq_2 eval_nat_numeral)
  from b have "snd (out ! 3) = Some ((\<Sum>j = Suc 3 - nat 3..3. snd (?d ! j)) / real_of_int 3)"
    by simp
  then have s: "s = Some 4" using sh
    by (simp add: eval_nat_numeral atLeastAtMostSuc_conv)
  from c sh pq r s show ?thesis by simp
qed

section \<open>Forecasts and their horizon\<close>

lemma train_size_10: "train_size 10 = 8"
  using train_size_floor [of 10] by simp

lemma train_size_5: "train_size 5 = 4"
  using train_size_floor [of 5] by simp

lemma forecast_success:
  assumes "train \<noteq> []" "fit (map snd train) = Some model" "0 < h"
  shows "\<exists>ps. forecast fit train h = Inr ps \<and> length ps = h
          \<and> (\<forall>k < h. ps ! k = (fst (last train) + 1 + int k, model (Suc k)))"
proof -
  define ps where "ps = map (\<lambda>k. (fst (last train) + int k, model k)) [1..<Suc h]"
  have f: "forecast fit train h = Inr ps" using assms by (simp add: forecast_def ps_def)
  have l: "length ps = h" by (simp add: ps_def)
  have n: "\<forall>k < h. ps ! k = (fst (last train) + 1 + int k, model (Suc k))"
    unfolding ps_def by (simp del: upt_Suc add: nth_map_upt)
  from f l n show ?thesis by blast
qed

lemma forecast_no_step:
  "forecast fit train 0 = Inl ValueError"
  by (simp add: forecast_def split: option.splits)

lemma moving_average_index:
  assumes "0 \<le> w"
  shows "\<exists>out. calculate_moving_average train w = Inr out
           \<and> length out = length train \<and> map fst out = map fst train"
  using assms by (simp add: calculate_moving_average_def rolling_mean_def)

text \<open>The split of a series of at least two days leaves both parts non-empty.\<close>

lemma train_size_bounds:
  assumes "2 \<le> n" "n < 2 ^ 50"
  shows "1 \<le> train_size n \<and> train_size n < n"
proof -
  have "train_size n = 4 * n div 5" using assms(2) by (rule train_size_floor)
  moreover have "1 \<le> 4 * n div 5" "4 * n div 5 < n" using assms(1) by presburger+
  ultimately show ?thesis by simp
qed

lemma daily_sales_dates:
  assumes "daily_sales df = Inr s" "i < length s"
  shows "fst (s ! i) = fst (s ! 0) + int i"
proof -
  have ne: "df \<noteq> []" using assms(1) by (auto simp: daily_sales_def)
  let ?lo = "Min (order_date ` set df)" and ?hi = "Max (order_date ` set df)"
  from daily_sales_rows [OF ne] assms(1)
  have s: "s = map (\<lambda>d. (d, sum_list (map price (filter (\<lambda>t. order_date t = d) df))))
              [?lo..?hi]"
    by simp
  have l: "i < length [?lo..?hi]" "0 < length [?lo..?hi]" using assms(2) by (simp_all add: s)
  have "fst (s ! i) = [?lo..?hi] ! i" "fst (s ! 0) = [?lo..?hi] ! 0"
    using l by (simp_all add: s)
  moreover have "[?lo..?hi] ! i = ?lo + int i" "[?lo..?hi] ! 0 = ?lo + int 0"
    using l by (simp_all only: nth_upto length_upto) 
  ultimately show ?thesis by simp
qed

lemma forecast_on_test_days:
  assumes "daily_sales df = Inr s" "2 \<le> length s" "length s < 2 ^ 50"
    "fit (map snd (train_data s)) = Some model"
  shows "\<exists>ps. forecast fit (train_data s) (length (test_data s)) = Inr ps
           \<and> length ps = length (test_data s)
           \<and> map fst ps = map fst (test_data s)
           \<and> (\<forall>k < length (test_data s).
                 ps ! k = (fst (last (train_data s)) + 1 + int k, model (Suc k)))"
proof -
  define k where "k = train_size (length s)"
  from train_size_bounds [OF assms(2,3)] have k: "1 \<le> k" "k < length s"
    by (simp_all add: k_def)
  have tr: "train_data s = take k s" and te: "test_data s = drop k s"
    by (simp_all add: train_data_def test_data_def k_def)
  have ne: "train_data s \<noteq> []" using k assms(2) by (auto simp: tr)
  have h: "0 < length (test_data s)" using k by (simp add: te)
  from forecast_success [of "train_data s" fit model "length (test_data s)", OF ne assms(4) h] obtain ps where
    ps: "forecast fit (train_data s) (length (test_data s)) = Inr ps"
      "length ps = length (test_data s)"
      "\<forall>j < length (test_data s).
          ps ! j = (fst (last (train_data s)) + 1 + int j, model (Suc j))"
    by blast
  have "take k s \<noteq> []" "length (take k s) = k" using k by auto
  then have "last (take k s) = take k s ! (k - 1)" by (simp add: last_conv_nth)
  then have "last (train_data s) = s ! (k - 1)" using k by (simp add: tr)
  then have lst: "fst (last (train_data s)) = fst (s ! 0) + int (k - 1)"
    using daily_sales_dates [OF assms(1), of "k - 1"] k by simp
  have "map fst ps = map fst (test_data s)"
  proof (rule nth_equalityI)
    show "length (map fst ps) = length (map fst (test_data s))" by (simp add: ps(2))
  next
    fix j assume "j < length (map fst ps)"
    then have j: "j < length (test_data s)" by (simp add: ps(2))
    then have kj: "k + j < length s" by (simp add: te)
    have "fst (ps ! j) = fst (s ! 0) + int (k - 1) + 1 + int j"
      using ps(3) j by (simp add: lst)
    also have "\<dots> = fst (s ! 0) + int (k + j)" using k by simp
    also have "\<dots> = fst (s ! (k + j))" using daily_sales_dates [OF assms(1) kj] by simp
    also have "\<dots> = fst (test_data s ! j)" using kj by (simp add: te)
    finally show "map fst ps ! j = map fst (test_data s) ! j"
      using j ps(2) by simp
  qed
  with ps show ?thesis by blast
qed

text \<open>
  Claim C3, as amended. Holt-Winters and seasonal ARIMA are both a fitted
  model asked for a forecast. On the daily series of the notebook, of at least
  two days, with both fits succeeding, each returns one prediction for every
  day of the test split, on exactly the dates of the test split, which are the
  days that follow the last training day. The same holds for every horizon of
  at least one step: h predictions, the k-th on the k-th day after the training
  end; a horizon of no step raises ValueError. The moving average takes no
  horizon: it yields one row for each training day, on the training days.
\<close>

theorem forecast_horizon:
  assumes "daily_sales df = Inr s" "2 \<le> length s" "length s < 2 ^ 50"
    "hw_fit (map snd (train_data s)) = Some hw"
    "sarima_fit (map snd (train_data s)) = Some sarima"
  shows "(\<exists>ps qs. hw_predictions hw_fit s = Inr ps
            \<and> sarima_predictions sarima_fit s = Inr qs
            \<and> length ps = length (test_data s) \<and> length qs = length (test_data s)
            \<and> map fst ps = map fst (test_data s) \<and> map fst qs = map fst (test_data s)
            \<and> (\<forall>k < length (test_data s).
                  ps ! k = (fst (last (train_data s)) + 1 + int k, hw (Suc k))
                \<and> qs ! k = (fst (last (train_data s)) + 1 + int k, sarima (Suc k))))
       \<and> (\<forall>h. 0 < h \<longrightarrow>
            (\<exists>ps qs. forecast hw_fit (train_data s) h = Inr ps
               \<and> forecast sarima_fit (train_data s) h = Inr qs
               \<and> length ps = h \<and> length qs = h
               \<and> (\<forall>k < h.
                     ps ! k = (fst (last (train_data s)) + 1 + int k, hw (Suc k))
                   \<and> qs ! k = (fst (last (train_data s)) + 1 + int k, sarima (Suc k)))))
       \<and> forecast hw_fit (train_data s) 0 = Inl ValueError
       \<and> forecast sarima_fit (train_data s) 0 = Inl ValueError
       \<and> (\<exists>out. ma_predictions s = Inr out
            \<and> length out = length (train_data s)
            \<and> map fst out = map fst (train_data s))"
proof -
  from forecast_on_test_days [of df s hw_fit hw, OF assms(1-4)] obtain ps where
    ps: "hw_predictions hw_fit s = Inr ps" "length ps = length (test_data s)"
      "map fst ps = map fst (test_data s)"
      "\<forall>k < length (test_data s).
          ps ! k = (fst (last (train_data s)) + 1 + int k, hw (Suc k))"
    unfolding hw_predictions_def by blast
  from forecast_on_test_days [of df s sarima_fit sarima, OF assms(1-3,5)] obtain qs where
    qs: "sarima_predictions sarima_fit s = Inr qs" "length qs = length (test_data s)"
      "map fst qs = map fst (test_data s)"
      "\<forall>k < length (test_data s).
          qs ! k = (fst (last (train_data s)) + 1 + int k, sarima (Suc k))"
    unfolding sarima_predictions_def by blast
  have a: "\<exists>ps qs. hw_predictions hw_fit s = Inr ps
            \<and> sarima_predictions sarima_fit s = Inr qs
            \<and> length ps = length (test_data s) \<and> length qs = length (test_data s)
            \<and> map fst ps = map fst (test_data s) \<and> map fst qs = map fst (test_data s)
            \<and> (\<forall>k < length (test_data s).
                  ps ! k = (fst (last (train_data s)) + 1 + int k, hw (Suc k))
                \<and> qs ! k = (fst (last (train_data s)) + 1 + int k, sarima (Suc k)))"
    using ps qs by blast
  have ne: "train_data s \<noteq> []"
    using train_size_bounds [OF assms(2,3)] assms(2) by (auto simp: train_data_def)
  have b: "\<forall>h. 0 < h \<longrightarrow>
            (\<exists>ps qs. forecast hw_fit (train_data s) h = Inr ps
               \<and> forecast sarima_fit (train_data s) h = Inr qs
               \<and> length ps = h \<and> length qs = h
               \<and> (\<forall>k < h.
                     ps ! k = (fst (last (train_data s)) + 1 + int k, hw (Suc k))
                   \<and> qs ! k = (fst (last (train_data s)) + 1 + int k, sarima (Suc k))))"
  proof (intro allI impI)
    fix h :: nat assume h: "0 < h"
    from forecast_success [of "train_data s" hw_fit hw h, OF ne assms(4) h]
      forecast_success [of "train_data s" sarima_fit sarima h, OF ne assms(5) h]
    show "\<exists>ps qs. forecast hw_fit (train_data s) h = Inr ps
               \<and> forecast sarima_fit (train_data s) h = Inr qs
               \<and> length ps = h \<and> length qs = h
               \<and> (\<forall>k < h.
                     ps ! k = (fst (last (train_data s)) + 1 + int k, hw (Suc k))
                   \<and> qs ! k = (fst (last (train_data s)) + 1 + int k, sarima (Suc k)))"
      by blast
  qed
  have c: "\<exists>out. ma_predictions s = Inr out
            \<and> length out = length (train_data s)
            \<and> map fst out = map fst (train_data s)"
    unfolding ma_predictions_def by (rule moving_average_index) simp
  from a b c forecast_no_step show ?thesis by blast
qed


theorem forecast_horizon_witness:
  "daily_sales
     [\<lparr>order_id = 1, order_date = 0, customer_id = 1, product_id = 1, category = ''a'',
        price = 2, quantity = 1\<rparr>,
      \<lparr>order_id = 2, order_date = 4, customer_id = 2, product_id = 1, category = ''a'',
        price = 5, quantity = 1\<rparr>]
     = Inr [(0, 2), (1, 0), (2, 0), (3, 0), (4, 5)]
   \<and> 2 \<le> length [(0, 2), (1, 0), (2, 0), (3, 0), (4, 5 :: real)]
   \<and> length [(0, 2), (1, 0), (2, 0), (3, 0), (4, 5 :: real)] < 2 ^ 50
   \<and> hw_predictions (\<lambda>xs. Some (\<lambda>k. real k)) [(0, 2), (1, 0), (2, 0), (3, 0), (4, 5)]
       = Inr [(4, 1)]
   \<and> sarima_predictions (\<lambda>xs. Some (\<lambda>k. 2 * real k))
         [(0, 2), (1, 0), (2, 0), (3, 0), (4, 5)]
       = Inr [(4, 2)]
   \<and> test_data [(0, 2), (1, 0), (2, 0), (3, 0), (4, 5 :: real)] = [(4 :: int, 5)]"
proof -
  let ?df = "[\<lparr>order_id = 1, order_date = 0, customer_id = 1, product_id = 1, category = ''a'',
        price = 2, quantity = 1\<rparr>,
      \<lparr>order_id = 2, order_date = 4, customer_id = 2, product_id = 1, category = ''a'',
        price = 5, quantity = 1 :: real\<rparr>]"
  let ?s = "[(0, 2), (1, 0), (2, 0), (3, 0), (4, 5)] :: real series"
  let ?hw = "\<lambda>xs :: real list. Some (\<lambda>k. real k)"
  let ?sa = "\<lambda>xs :: real list. Some (\<lambda>k. 2 * real k)"
  have ne: "?df \<noteq> []" by simp
  have d: "daily_sales ?df = Inr ?s"
    unfolding daily_sales_rows [OF ne] by (simp add: upto_rec1)
  have l2: "2 \<le> length ?s" and l50: "length ?s < 2 ^ 50" by simp_all
  have f1: "?hw (map snd (train_data ?s)) = Some (\<lambda>k. real k)" by simp
  have f2: "?sa (map snd (train_data ?s)) = Some (\<lambda>k. 2 * real k)" by simp
  have l: "length ?s = 5" by simp
  have te: "test_data ?s = [(4, 5)]" unfolding test_data_def l train_size_5 by simp
  have tr: "train_data ?s = [(0, 2), (1, 0), (2, 0), (3, 0)]"
    unfolding train_data_def l train_size_5 by simp
  from forecast_horizon [of ?df ?s ?hw "\<lambda>k. real k" ?sa "\<lambda>k. 2 * real k",
      OF d l2 l50 f1 f2]
  obtain ps qs where
    p: "hw_predictions ?hw ?s = Inr ps" "sarima_predictions ?sa ?s = Inr qs"
      "map fst ps = map fst (test_data ?s)" "map fst qs = map fst (test_data ?s)"
      "\<forall>k < length (test_data ?s).
          ps ! k = (fst (last (train_data ?s)) + 1 + int k, real (Suc k))
        \<and> qs ! k = (fst (last (train_data ?s)) + 1 + int k, 2 * real (Suc k))"
    by blast
  from p(3,4) obtain a b where sh: "ps = [(4, a)]" "qs = [(4, b)]"
    unfolding te by (auto simp: map_eq_Cons_conv)
  from p(5) have "ps ! 0 = (4, 1)" "qs ! 0 = (4, 2)" unfolding te tr by simp_all
  with sh have "ps = [(4, 1)]" "qs = [(4, 2)]" by simp_all
  with p(1,2) d l2 l50 te show ?thesis by simp
qed

text \<open>
  Claim C3 as stated fails for the moving average. On a series of ten days the
  test split is the two days 8 and 9, so the horizon is 2; the moving average
  of the notebook has eight rows, on the training days 0 .. 7, and none on the
  days after the training end.
\<close>

theorem moving_average_horizon_counterexample:
  "test_data [(0, 1), (1, 2), (2, 3), (3, 4), (4, 5), (5, 6), (6, 7), (7, 8), (8, 9), (9, 10)]
     = ([(8, 9), (9, 10)] :: real series)
   \<and> ma_predictions [(0, 1), (1, 2), (2, 3), (3, 4), (4, 5), (5, 6), (6, 7), (7, 8), (8, 9), (9, 10)]
     = Inr [(0, None), (1, None), (2, None), (3, None), (4, None), (5, None),
            (6, Some 4), (7, Some 5)]"
proof -
  let ?s = "[(0, 1), (1, 2), (2, 3), (3, 4), (4, 5), (5, 6), (6, 7), (7, 8), (8, 9), (9, 10)]
              :: real series"
  have l: "length ?s = 10" by simp
  have te: "test_data ?s = [(8, 9), (9, 10)]"
    unfolding test_data_def l train_size_10 by simp
  have tr: "train_data ?s = [(0, 1), (1, 2), (2, 3), (3, 4), (4, 5), (5, 6), (6, 7), (7, 8)]"
    unfolding train_data_def l train_size_10 by simp
  have "ma_predictions ?s = Inr [(0, None), (1, None), (2, None), (3, None), (4, None),
            (5, None), (6, Some 4), (7, Some 5)]"
    unfolding ma_predictions_def tr
    by (simp add: calculate_moving_average_def rolling_mean_def Let_def upt_rec)
  with te show ?thesis by simp
qed

section \<open>The metrics table\<close>

lemma metrics_df_InrD:
  assumes "metrics_df hw_fit sarima_fit s = Inr rows"
  shows "\<exists>hw sarima hm hr hp sm sr sp.
           hw_predictions hw_fit s = Inr hw
         \<and> sarima_predictions sarima_fit s = Inr sarima
         \<and> calculate_metrics (map snd (test_data s)) (map snd hw) = Inr (hm, hr, hp)
         \<and> calculate_metrics (map snd (test_data s)) (map snd sarima) = Inr (sm, sr, sp)
         \<and> rows = [\<lparr>Model = ''Holt-Winters'', MAE = hm, RMSE = hr, MAPE = hp\<rparr>,
                    \<lparr>Model = ''SARIMA'', MAE = sm, RMSE = sr, MAPE = sp\<rparr>]"
  using assms unfolding metrics_df_def
  by (auto split: sum.splits prod.splits)

text \<open>
  Claim C10. When the evaluation cell completes, the metrics table has exactly
  two rows, Holt-Winters first and SARIMA second, each holding the MAE, RMSE
  and MAPE of that model's forecast against the test split; no row belongs to
  the moving average, which the table does not depend on.
\<close>

theorem metrics_df_two_rows:
  assumes "metrics_df hw_fit sarima_fit s = Inr rows"
  shows "length rows = 2
       \<and> map Model rows = [''Holt-Winters'', ''SARIMA'']
       \<and> (\<exists>hw. hw_predictions hw_fit s = Inr hw
             \<and> calculate_metrics (map snd (test_data s)) (map snd hw)
                 = Inr (MAE (rows ! 0), RMSE (rows ! 0), MAPE (rows ! 0)))
       \<and> (\<exists>sarima. sarima_predictions sarima_fit s = Inr sarima
             \<and> calculate_metrics (map snd (test_data s)) (map snd sarima)
                 = Inr (MAE (rows ! 1), RMSE (rows ! 1), MAPE (rows ! 1)))
       \<and> (\<forall>r \<in> set rows. Model r \<noteq> ''Moving Average'')"
proof -
  from metrics_df_InrD [OF assms] obtain hw sarima hm hr hp sm sr sp where
    h: "hw_predictions hw_fit s = Inr hw"
    and sa: "sarima_predictions sarima_fit s = Inr sarima"
    and ch: "calculate_metrics (map snd (test_data s)) (map snd hw) = Inr (hm, hr, hp)"
    and cs: "calculate_metrics (map snd (test_data s)) (map snd sarima) = Inr (sm, sr, sp)"
    and rows: "rows = [\<lparr>Model = ''Holt-Winters'', MAE = hm, RMSE = hr, MAPE = hp\<rparr>,
                    \<lparr>Model = ''SARIMA'', MAE = sm, RMSE = sr, MAPE = sp\<rparr>]"
    by blast
  have a: "length rows = 2" by (simp add: rows)
  have b: "map Model rows = [''Holt-Winters'', ''SARIMA'']" by (simp add: rows)
  have c: "calculate_metrics (map snd (test_data s)) (map snd hw)
                 = Inr (MAE (rows ! 0), RMSE (rows ! 0), MAPE (rows ! 0))"
    by (simp add: rows ch)
  have d: "calculate_metrics (map snd (test_data s)) (map snd sarima)
                 = Inr (MAE (rows ! 1), RMSE (rows ! 1), MAPE (rows ! 1))"
    by (simp add: rows cs)
  have e: "\<forall>r \<in> set rows. Model r \<noteq> ''Moving Average''" by (simp add: rows)
  from a b c d e h sa show ?thesis by blast
qed

theorem metrics_df_two_rows_witness:
  "metrics_df (\<lambda>xs. Some (\<lambda>k. 4)) (\<lambda>xs. Some (\<lambda>k. 7))
      [(0, 1), (1, 2), (2, 3), (3, 4), (4, 5)]
     = Inr [\<lparr>Model = ''Holt-Winters'', MAE = 1, RMSE = 1, MAPE = Finite 20\<rparr>,
            \<lparr>Model = ''SARIMA'', MAE = 2, RMSE = 2, MAPE = Finite 40\<rparr>]
   \<and> map Model [\<lparr>Model = ''Holt-Winters'', MAE = 1, RMSE = 1, MAPE = Finite 20\<rparr>,
            \<lparr>Model = ''SARIMA'', MAE = 2, RMSE = 2, MAPE = Finite 40\<rparr>]
     = [''Holt-Winters'', ''SARIMA'']"
proof -
  let ?rows = "[\<lparr>Model = ''Holt-Winters'', MAE = 1, RMSE = 1, MAPE = Finite 20\<rparr>,
            \<lparr>Model = ''SARIMA'', MAE = 2, RMSE = 2, MAPE = Finite 40\<rparr>]"
  have h: "metrics_df (\<lambda>xs. Some (\<lambda>k. 4)) (\<lambda>xs. Some (\<lambda>k. 7))
      [(0, 1), (1, 2), (2, 3), (3, 4), (4, 5)] = Inr ?rows"
  proof -
    let ?s = "[(0, 1), (1, 2), (2, 3), (3, 4), (4, 5)] :: real series"
    have l: "length ?s = 5" by simp
    have te: "test_data ?s = [(4, 5)]" unfolding test_data_def l train_size_5 by simp
    have tr: "train_data ?s = [(0, 1), (1, 2), (2, 3), (3, 4)]"
      unfolding train_data_def l train_size_5 by simp
    show ?thesis
      unfolding metrics_df_def hw_predictions_def sarima_predictions_def te tr
      by (simp add: forecast_def calculate_metrics_def
          mean_absolute_error_def mean_squared_error_def series_mean_def np_div_def)
  qed
  from metrics_df_two_rows [OF h] have "map Model ?rows = [''Holt-Winters'', ''SARIMA'']"
    by blast
  with h show ?thesis by blast
qed

section \<open>MAE, RMSE and MAPE\<close>

lemma sum_sq_dev:
  "sum_list (map (\<lambda>x. (x - m)\<^sup>2) es)
     = sum_list (map (\<lambda>x. x\<^sup>2) es) - 2 * m * sum_list es + real (length es) * m\<^sup>2"
  for m :: real
  by (induction es) (simp_all add: power2_eq_square algebra_simps)

lemma mean_sq_ge_sq_mean:
  fixes es :: "real list"
  assumes "es \<noteq> []"
  defines "n \<equiv> real (length es)"
  defines "m \<equiv> sum_list es / n"
  shows "m\<^sup>2 \<le> sum_list (map (\<lambda>x. x\<^sup>2) es) / n"
    and "(sum_list (map (\<lambda>x. x\<^sup>2) es) / n = m\<^sup>2) = (\<forall>x \<in> set es. x = m)"
proof -
  have n: "0 < n" using assms(1) by (simp add: n_def)
  have sm: "sum_list es = n * m" using n by (simp add: m_def)
  have "sum_list (map (\<lambda>x. (x - m)\<^sup>2) es)
          = sum_list (map (\<lambda>x. x\<^sup>2) es) - 2 * m * sum_list es + real (length es) * m\<^sup>2"
    by (rule sum_sq_dev)
  also have "\<dots> = sum_list (map (\<lambda>x. x\<^sup>2) es) - 2 * m * (n * m) + n * m\<^sup>2"
    by (simp only: sm n_def)
  also have "\<dots> = sum_list (map (\<lambda>x. x\<^sup>2) es) - n * m\<^sup>2"
    by (simp add: power2_eq_square)
  finally have dev: "sum_list (map (\<lambda>x. (x - m)\<^sup>2) es)
          = sum_list (map (\<lambda>x. x\<^sup>2) es) - n * m\<^sup>2" .
  have nonneg: "0 \<le> sum_list (map (\<lambda>x. (x - m)\<^sup>2) es)"
    by (rule sum_list_nonneg) auto
  have q: "sum_list (map (\<lambda>x. x\<^sup>2) es) / n - m\<^sup>2 = sum_list (map (\<lambda>x. (x - m)\<^sup>2) es) / n"
    using n by (simp add: dev field_simps)
  from nonneg n have "0 \<le> sum_list (map (\<lambda>x. (x - m)\<^sup>2) es) / n" by simp
  with q show "m\<^sup>2 \<le> sum_list (map (\<lambda>x. x\<^sup>2) es) / n" by linarith
  have "(sum_list (map (\<lambda>x. x\<^sup>2) es) / n = m\<^sup>2) = (sum_list (map (\<lambda>x. (x - m)\<^sup>2) es) / n = 0)"
    using q by linarith
  also have "\<dots> = (sum_list (map (\<lambda>x. (x - m)\<^sup>2) es) = 0)" using n by simp
  also have "\<dots> = (\<forall>y \<in> set (map (\<lambda>x. (x - m)\<^sup>2) es). y = 0)"
    by (rule sum_list_nonneg_eq_0_iff) auto
  also have "\<dots> = (\<forall>x \<in> set es. x = m)" by auto
  finally show "(sum_list (map (\<lambda>x. x\<^sup>2) es) / n = m\<^sup>2) = (\<forall>x \<in> set es. x = m)" .
qed

lemma all_equal_mean:
  fixes es :: "real list"
  assumes "es \<noteq> []"
  shows "(\<forall>x \<in> set es. x = sum_list es / real (length es)) = (\<forall>x \<in> set es. \<forall>y \<in> set es. x = y)"
proof
  assume "\<forall>x \<in> set es. x = sum_list es / real (length es)"
  then show "\<forall>x \<in> set es. \<forall>y \<in> set es. x = y" by metis
next
  assume a: "\<forall>x \<in> set es. \<forall>y \<in> set es. x = y"
  from assms obtain c where c: "c \<in> set es" by (cases es) auto
  with a have all: "\<forall>x \<in> set es. x = c" by blast
  then have "map (\<lambda>x. c) es = es" by (simp add: map_idI)
  then have "sum_list es = sum_list (map (\<lambda>x. c) es)" by simp
  also have "\<dots> = real (length es) * c" by (simp add: sum_list_triv)
  finally have "sum_list es / real (length es) = c" using assms by simp
  with all show "\<forall>x \<in> set es. x = sum_list es / real (length es)" by simp
qed

lemma calculate_metrics_Inr:
  assumes "length actual = length predicted" "actual \<noteq> []"
  shows "calculate_metrics actual predicted =
     Inr (sum_list (map (\<lambda>(a, p). \<bar>a - p\<bar>) (zip actual predicted)) / real (length actual),
          sqrt (sum_list (map (\<lambda>(a, p). (a - p)\<^sup>2) (zip actual predicted))
                / real (length actual)),
          np_scale (series_mean (map (\<lambda>(a, p). np_abs (np_div (a - p) a))
                                     (zip actual predicted))) 100)"
  using assms
  by (simp add: calculate_metrics_def mean_absolute_error_def mean_squared_error_def)

text \<open>
  Over the real numbers: RMSE is at least MAE, and the two are equal exactly
  when all absolute errors are the same.
\<close>

lemma calculate_metrics_exact:
  assumes "length actual = length predicted" "actual \<noteq> []"
  shows "\<exists>mae rmse mape. calculate_metrics actual predicted = Inr (mae, rmse, mape)
     \<and> 0 \<le> mae \<and> 0 \<le> rmse \<and> mae \<le> rmse
     \<and> (rmse = mae \<longleftrightarrow>
          (\<forall>i < length actual. \<forall>j < length actual.
             \<bar>actual ! i - predicted ! i\<bar> = \<bar>actual ! j - predicted ! j\<bar>))"
proof -
  define es where "es = map (\<lambda>(a, p). \<bar>a - p\<bar>) (zip actual predicted)"
  define n where "n = real (length es)"
  define mae where "mae = sum_list es / n"
  define mse where "mse = sum_list (map (\<lambda>x. x\<^sup>2) es) / n"
  have len: "length es = length actual" using assms(1) by (simp add: es_def)
  have ne: "es \<noteq> []" using assms(2) len by auto
  have npos: "0 < n" using ne by (simp add: n_def)
  have sq: "map (\<lambda>(a, p). (a - p)\<^sup>2) (zip actual predicted) = map (\<lambda>x. x\<^sup>2) es"
    by (simp add: es_def split_def)
  have cm: "calculate_metrics actual predicted =
      Inr (mae, sqrt mse,
           np_scale (series_mean (map (\<lambda>(a, p). np_abs (np_div (a - p) a))
                                      (zip actual predicted))) 100)"
    unfolding calculate_metrics_Inr [OF assms] sq mae_def mse_def n_def len
    by (simp add: es_def)
  have es0: "0 \<le> sum_list es" by (rule sum_list_nonneg) (auto simp: es_def)
  then have mae0: "0 \<le> mae" using npos by (simp add: mae_def)
  have le: "mae\<^sup>2 \<le> mse"
    unfolding mae_def mse_def n_def by (rule mean_sq_ge_sq_mean(1) [OF ne])
  then have mse0: "0 \<le> mse" using zero_le_power2 [of mae] by linarith
  have rm0: "0 \<le> sqrt mse" using mse0 by simp
  have mr: "mae \<le> sqrt mse" using le by (rule real_le_rsqrt)
  have "(sqrt mse = mae) = (mse = mae\<^sup>2)"
  proof
    assume "sqrt mse = mae"
    then have "(sqrt mse)\<^sup>2 = mae\<^sup>2" by simp
    then show "mse = mae\<^sup>2" using mse0 by simp
  next
    assume "mse = mae\<^sup>2"
    then show "sqrt mse = mae" using mae0 by simp
  qed
  also have "\<dots> = (\<forall>x \<in> set es. x = mae)"
    unfolding mae_def mse_def n_def by (rule mean_sq_ge_sq_mean(2) [OF ne])
  also have "\<dots> = (\<forall>x \<in> set es. \<forall>y \<in> set es. x = y)"
    unfolding mae_def n_def by (rule all_equal_mean [OF ne])
  also have "\<dots> = (\<forall>i < length es. \<forall>j < length es. es ! i = es ! j)"
    by (metis in_set_conv_nth)
  also have "\<dots> = (\<forall>i < length actual. \<forall>j < length actual.
             \<bar>actual ! i - predicted ! i\<bar> = \<bar>actual ! j - predicted ! j\<bar>)"
    using assms(1) by (simp add: len) (simp add: es_def)
  finally have eq: "(sqrt mse = mae) = (\<forall>i < length actual. \<forall>j < length actual.
             \<bar>actual ! i - predicted ! i\<bar> = \<bar>actual ! j - predicted ! j\<bar>)" .
  from cm mae0 rm0 mr eq show ?thesis by blast
qed

subsection \<open>The computation in binary64\<close>

lemma round_even_nonneg: "0 \<le> y \<Longrightarrow> 0 \<le> round_even y"
  unfolding round_even_def Let_def
  by (smt (verit) zero_le_floor)

lemma round_even_eqI:
  assumes "of_int m - 1 / 2 < y" "y < of_int m + 1 / 2"
  shows "round_even y = m"
proof (cases "of_int m \<le> y")
  case True
  then have f: "\<lfloor>y\<rfloor> = m" using assms(2) by (intro floor_unique) auto
  show ?thesis using assms by (simp add: round_even_def Let_def f)
next
  case False
  then have f: "\<lfloor>y\<rfloor> = m - 1" using assms(1) by (intro floor_unique) auto
  show ?thesis using assms False by (simp add: round_even_def Let_def f)
qed

lemma round_even_tie:
  assumes "y = of_int f + 1 / 2"
  shows "round_even y = (if even f then f else f + 1)"
proof -
  have f: "\<lfloor>y\<rfloor> = f" using assms by (intro floor_unique) auto
  show ?thesis using assms by (simp add: round_even_def Let_def f)
qed

lemma f64_never_NaN: "f64 x \<noteq> NaN"
  by (simp add: f64_def Let_def)

lemma f64_cases:
  obtains "f64 x = PosInf" "0 < x" | "f64 x = NegInf" "x < 0"
  | y where "f64 x = Finite (sgn x * y)" "0 \<le> y"
proof (cases "x = 0")
  case True
  then have "f64 x = Finite (sgn x * 0)" by (simp add: f64_def)
  then show ?thesis using that(3) by blast
next
  case False
  define ulp :: real where "ulp = 2 powi (max \<lfloor>log 2 \<bar>x\<bar>\<rfloor> (- 1022) - 52)"
  define y where "y = real_of_int (round_even (\<bar>x\<bar> / ulp)) * ulp"
  have u: "0 < ulp" by (simp add: ulp_def)
  have "0 \<le> \<bar>x\<bar> / ulp" using u by simp
  then have "0 \<le> round_even (\<bar>x\<bar> / ulp)" by (rule round_even_nonneg)
  then have y: "0 \<le> y" using u by (simp add: y_def)
  have eq: "f64 x = (if 2 ^ 1024 \<le> y then (if 0 < x then PosInf else NegInf)
                     else Finite (sgn x * y))"
    unfolding f64_def Let_def y_def ulp_def using False by (simp only: if_False)
  show ?thesis
  proof (cases "(2 :: real) ^ 1024 \<le> y")
    case True
    with eq have e2: "f64 x = (if 0 < x then PosInf else NegInf)" by (simp only: if_True)
    show ?thesis
    proof (cases "0 < x")
      case True
      with e2 have "f64 x = PosInf" by simp
      then show ?thesis using True that(1) by blast
    next
      case neg: False
      with e2 have "f64 x = NegInf" by simp
      moreover have "x < 0" using neg \<open>x \<noteq> 0\<close> by simp
      ultimately show ?thesis using that(2) by blast
    qed
  next
    case False
    then show ?thesis using eq y that(3) by (simp only: if_False)
  qed
qed

lemma f64_nonneg: "0 \<le> x \<Longrightarrow> np_nonneg (f64 x)"
  by (rule f64_cases [of x]) (simp_all add: np_nonneg_def sgn_if)

lemma f64_eqI:
  assumes "0 < x" "2 powi e \<le> x" "x < 2 powi (e + 1)" "- 1022 \<le> e"
    and "round_even (x / 2 powi (e - 52)) = m"
    and "real_of_int m * 2 powi (e - 52) < 2 ^ 1024"
  shows "f64 x = Finite (real_of_int m * 2 powi (e - 52))"
proof -
  have p1: "2 powr real_of_int e = 2 powi e" by (rule powr_real_of_int') simp_all
  have p2: "2 powr real_of_int (e + 1) = 2 powi (e + 1)" by (rule powr_real_of_int') simp_all
  have "2 powr real_of_int e \<le> x \<and> x < 2 powr (real_of_int e + 1)"
    using assms(2,3) p1 p2 by simp
  then have "\<lfloor>log 2 x\<rfloor> = e"
    using assms(1) by (simp add: floor_log_eq_powr_iff)
  then have e: "max \<lfloor>log 2 x\<rfloor> (- 1022) = e" using assms(4) by simp
  have ax: "\<bar>x\<bar> = x" using assms(1) by simp
  show ?thesis unfolding f64_def Let_def ax e using assms(1,5,6) by simp
qed

lemma f64_val:
  assumes "0 < x" "2 powi e \<le> x" "x < 2 powi (e + 1)" "- 1022 \<le> e"
    and "of_int m - 1 / 2 < x / 2 powi (e - 52)" "x / 2 powi (e - 52) < of_int m + 1 / 2"
    and "v = real_of_int m * 2 powi (e - 52)" "v < 2 ^ 1024"
  shows "f64 x = Finite v"
proof -
  have r: "round_even (x / 2 powi (e - 52)) = m" using assms(5,6) by (rule round_even_eqI)
  show ?thesis unfolding assms(7)
    using assms(1-4) r assms(8) [unfolded assms(7)] by (rule f64_eqI)
qed

lemma f64_val_tie:
  assumes "0 < x" "2 powi e \<le> x" "x < 2 powi (e + 1)" "- 1022 \<le> e"
    and "x / 2 powi (e - 52) = of_int f + 1 / 2"
    and "v = real_of_int (if even f then f else f + 1) * 2 powi (e - 52)" "v < 2 ^ 1024"
  shows "f64 x = Finite v"
proof -
  have r: "round_even (x / 2 powi (e - 52)) = (if even f then f else f + 1)"
    using assms(5) by (rule round_even_tie)
  show ?thesis unfolding assms(6)
    using assms(1-4) r assms(7) [unfolded assms(6)] by (rule f64_eqI)
qed

lemma f64_neg:
  assumes "f64 (- x) = Finite y"
  shows "f64 x = Finite (- y)"
proof (cases "x = 0")
  case True
  then show ?thesis using assms by (simp add: f64_def)
next
  case False
  define ulp :: real where "ulp = 2 powi (max \<lfloor>log 2 \<bar>x\<bar>\<rfloor> (- 1022) - 52)"
  define z where "z = real_of_int (round_even (\<bar>x\<bar> / ulp)) * ulp"
  have e1: "f64 x = (if 2 ^ 1024 \<le> z then (if 0 < x then PosInf else NegInf)
                     else Finite (sgn x * z))"
    unfolding f64_def Let_def z_def ulp_def using False by (simp only: if_False)
  have nz: "- x \<noteq> 0" using False by simp
  have ab: "\<bar>- x\<bar> = \<bar>x\<bar>" by simp
  have e2: "f64 (- x) = (if 2 ^ 1024 \<le> z then (if 0 < - x then PosInf else NegInf)
                     else Finite (sgn (- x) * z))"
    unfolding f64_def Let_def z_def ulp_def ab using nz by (simp only: if_False)
  show ?thesis
  proof (cases "(2 :: real) ^ 1024 \<le> z")
    case True
    with e2 have "f64 (- x) = (if 0 < - x then PosInf else NegInf)" by (simp only: if_True)
    with assms show ?thesis by (simp split: if_splits)
  next
    case False
    with e2 have "f64 (- x) = Finite (sgn (- x) * z)" by (simp only: if_False)
    with assms have y: "y = sgn (- x) * z" by simp
    from False e1 have "f64 x = Finite (sgn x * z)" by (simp only: if_False)
    then show ?thesis using y by (simp add: sgn_minus)
  qed
qed

lemma np_nonneg_simps:
  "np_nonneg (Finite x) = (0 \<le> x)" "np_nonneg PosInf" "\<not> np_nonneg NegInf" "\<not> np_nonneg NaN"
  by (simp_all add: np_nonneg_def)

lemma np_nonneg_abs: "v \<noteq> NaN \<Longrightarrow> np_nonneg (np_abs v)"
  by (cases v) (simp_all add: np_nonneg_simps)

lemma np_nonneg_add: "np_nonneg a \<Longrightarrow> np_nonneg b \<Longrightarrow> np_nonneg (f64_add a b)"
  by (cases a; cases b) (simp_all add: np_nonneg_simps f64_nonneg)

lemma np_nonneg_foldl:
  "np_nonneg acc \<Longrightarrow> \<forall>v \<in> set xs. np_nonneg v \<Longrightarrow> np_nonneg (foldl f64_add acc xs)"
  by (induction xs arbitrary: acc) (simp_all add: np_nonneg_add)

lemma np_nonneg_square: "v \<noteq> NaN \<Longrightarrow> np_nonneg (f64_square v)"
  by (cases v) (simp_all add: np_nonneg_simps f64_nonneg)

lemma np_nonneg_div_count: "np_nonneg v \<Longrightarrow> 0 < n \<Longrightarrow> np_nonneg (f64_div_count v n)"
  by (cases v) (simp_all add: np_nonneg_simps f64_nonneg)

lemma np_nonneg_sqrt: "np_nonneg v \<Longrightarrow> np_nonneg (f64_sqrt v)"
  by (cases v) (simp_all add: np_nonneg_simps f64_nonneg)

lemma np_nonneg_pairwise_sum:
  "\<forall>v \<in> set a. np_nonneg v \<Longrightarrow> np_nonneg (pairwise_sum a)"
proof (induction a rule: pairwise_sum.induct)
  case (1 a)
  have zero: "np_nonneg (Finite 0)" by (simp add: np_nonneg_simps)
  have nth: "np_nonneg (a ! k)" if "k < length a" for k
    using "1.prems" that by simp
  show ?case
  proof (cases "length a < 8")
    case True
    then have "pairwise_sum a = foldl f64_add (Finite 0) a"
      by (simp add: pairwise_sum.simps [of a])
    then show ?thesis using np_nonneg_foldl [OF zero "1.prems"] by simp
  next
    case ge8: False
    show ?thesis
    proof (cases "length a \<le> 128")
      case True
      define m where "m = length a - length a mod 8"
      define r where "r = map (\<lambda>j. foldl f64_add (a ! j) (map (\<lambda>i. a ! (8 * i + j)) [1..<m div 8]))
                     [0..<8]"
      have m8: "8 * (m div 8) \<le> length a"
        unfolding m_def by (metis diff_le_self div_mult_mod_eq le_add1 le_trans mult.commute)
      have lane: "np_nonneg (r ! j)" if j: "j < 8" for j
      proof -
        have "r ! j = foldl f64_add (a ! j) (map (\<lambda>i. a ! (8 * i + j)) [1..<m div 8])"
          using j unfolding r_def by (simp del: upt_Suc)
        moreover have "np_nonneg (a ! j)" using j ge8 by (intro nth) simp
        moreover have "\<forall>v \<in> set (map (\<lambda>i. a ! (8 * i + j)) [1..<m div 8]). np_nonneg v"
        proof
          fix v assume "v \<in> set (map (\<lambda>i. a ! (8 * i + j)) [1..<m div 8])"
          then obtain i where i: "i < m div 8" and v: "v = a ! (8 * i + j)" by auto
          from i have "8 * i + 8 \<le> 8 * (m div 8)" by simp
          with j m8 have "8 * i + j < length a" by linarith
          then show "np_nonneg v" unfolding v by (rule nth)
        qed
        ultimately show ?thesis using np_nonneg_foldl by simp
      qed
      have res: "np_nonneg (f64_add (f64_add (f64_add (r ! 0) (r ! 1)) (f64_add (r ! 2) (r ! 3)))
                           (f64_add (f64_add (r ! 4) (r ! 5)) (f64_add (r ! 6) (r ! 7))))"
        by (intro np_nonneg_add lane) simp_all
      have rest: "\<forall>v \<in> set (drop m a). np_nonneg v"
        using "1.prems" by (meson in_set_dropD)
      have "pairwise_sum a =
          foldl f64_add (f64_add (f64_add (f64_add (r ! 0) (r ! 1)) (f64_add (r ! 2) (r ! 3)))
                           (f64_add (f64_add (r ! 4) (r ! 5)) (f64_add (r ! 6) (r ! 7))))
                (drop m a)"
        using ge8 True unfolding r_def m_def
        by (subst pairwise_sum.simps) (simp only: Let_def if_True if_False)
      then show ?thesis using np_nonneg_foldl [OF res rest] by simp
    next
      case False
      define n2 where "n2 = length a div 2 - (length a div 2) mod 8"
      have eq: "pairwise_sum a = f64_add (pairwise_sum (take n2 a)) (pairwise_sum (drop n2 a))"
        using ge8 False unfolding n2_def
        by (subst pairwise_sum.simps) (simp only: Let_def if_True if_False)
      have l: "np_nonneg (pairwise_sum (take n2 a))"
        using "1.IH"(1) [OF ge8 False n2_def] "1.prems"
        by (meson in_set_takeD)
      have rr: "np_nonneg (pairwise_sum (drop n2 a))"
        using "1.IH"(2) [OF ge8 False n2_def] "1.prems"
        by (meson in_set_dropD)
      show ?thesis unfolding eq using l rr by (rule np_nonneg_add)
    qed
  qed
qed

lemma calculate_metrics_f64_nonneg:
  assumes "length actual = length predicted" "actual \<noteq> []"
  shows "\<exists>mae rmse. calculate_metrics_f64 actual predicted = Inr (mae, rmse)
           \<and> np_nonneg mae \<and> np_nonneg rmse"
proof -
  define es where "es = map (\<lambda>(a, p). np_abs (f64 (p - a))) (zip actual predicted)"
  define ss where "ss = map (\<lambda>(a, p). f64_square (f64 (a - p))) (zip actual predicted)"
  have n: "0 < length actual" using assms(2) by simp
  have e: "\<forall>v \<in> set es. np_nonneg v"
    unfolding es_def by (auto simp: np_nonneg_abs f64_never_NaN)
  have s: "\<forall>v \<in> set ss. np_nonneg v"
    unfolding ss_def by (auto simp: np_nonneg_square f64_never_NaN)
  have mae: "np_nonneg (f64_div_count (pairwise_sum es) (length actual))"
    using np_nonneg_pairwise_sum [OF e] n by (rule np_nonneg_div_count)
  have mse: "np_nonneg (f64_div_count (pairwise_sum ss) (length actual))"
    using np_nonneg_pairwise_sum [OF s] n by (rule np_nonneg_div_count)
  have "calculate_metrics_f64 actual predicted =
      Inr (f64_div_count (pairwise_sum es) (length actual),
           f64_sqrt (f64_div_count (pairwise_sum ss) (length actual)))"
    using assms
    by (simp add: calculate_metrics_f64_def mean_absolute_error_f64_def
        mean_squared_error_f64_def es_def ss_def)
  with mae np_nonneg_sqrt [OF mse] show ?thesis by blast
qed

lemma f64_ex_sub1: "f64 (2 - 1) = Finite (1)"
  by (rule f64_val [where e = "0" and m = 4503599627370496]) simp_all

lemma f64_ex_sub2: "f64 (5 - 2) = Finite (3)"
  by (rule f64_val [where e = "1" and m = 6755399441055744]) simp_all

lemma f64_ex_add1: "f64 (0 + 1) = Finite (1)"
  by (rule f64_val [where e = "0" and m = 4503599627370496]) simp_all

lemma f64_ex_add2: "f64 (1 + 3) = Finite (4)"
  by (rule f64_val [where e = "2" and m = 4503599627370496]) simp_all

lemma f64_ex_div1: "f64 (4 / real 2) = Finite (2)"
  by (rule f64_val [where e = "1" and m = 4503599627370496]) simp_all

lemma f64_ex_sq1: "f64 (- 1 * - 1) = Finite (1)"
  by (rule f64_val [where e = "0" and m = 4503599627370496]) simp_all

lemma f64_ex_sq2: "f64 (3 * 3) = Finite (9)"
  by (rule f64_val [where e = "3" and m = 5066549580791808]) simp_all

lemma f64_ex_add3: "f64 (1 + 9) = Finite (10)"
  by (rule f64_val [where e = "3" and m = 5629499534213120]) simp_all

lemma f64_ex_div2: "f64 (10 / real 2) = Finite (5)"
  by (rule f64_val [where e = "2" and m = 5629499534213120]) simp_all

lemma f64_ex_sub3: "f64 (2 - 5) = Finite (- 3)"
proof -
  have "f64 (- (2 - 5)) = Finite 3" using f64_ex_sub2 by simp
  then show ?thesis by (rule f64_neg)
qed

lemma f64_ex_sub4: "f64 (1 - 2) = Finite (- 1)"
proof -
  have "f64 (- (1 - 2)) = Finite 1" using f64_ex_sub1 by simp
  then show ?thesis by (rule f64_neg)
qed

lemma f64_ex_sqrt: "f64_sqrt (Finite 5) = Finite (5035177455121576 / 2 ^ 51)"
proof -
  define r :: real where "r = sqrt 5"
  have lo: "(5035177455121576 - 1 / 2) / 2 ^ 51 < r"
    unfolding r_def by (rule real_less_rsqrt) (simp add: power2_eq_square)
  have hi: "r < (5035177455121576 + 1 / 2) / 2 ^ 51"
    unfolding r_def by (rule real_less_lsqrt) (simp_all add: power2_eq_square)
  have "f64 r = Finite (5035177455121576 / 2 ^ 51)"
  proof (rule f64_val [where e = 1 and m = 5035177455121576])
    show "0 < r" using lo by simp
    show "2 powi 1 \<le> r" using lo by simp
    show "r < 2 powi (1 + 1)" using hi by simp
    show "real_of_int 5035177455121576 - 1 / 2 < r / 2 powi (1 - 52)" using lo by simp
    show "r / 2 powi (1 - 52) < real_of_int 5035177455121576 + 1 / 2" using hi by simp
  qed simp_all
  then have "f64 (sqrt 5) = Finite (5035177455121576 / 2 ^ 51)" by (simp only: r_def)
  moreover have "\<not> (5 :: real) < 0" by simp
  ultimately show ?thesis by (simp only: f64_sqrt.simps if_False)
qed

lemma mean_absolute_error_f64_2:
  "mean_absolute_error_f64 [a1, a2] [p1, p2] =
     Inr (f64_div_count
            (f64_add (f64_add (Finite 0) (np_abs (f64 (p1 - a1)))) (np_abs (f64 (p2 - a2)))) 2)"
  by (simp add: mean_absolute_error_f64_def pairwise_sum.simps numeral_2_eq_2)

lemma mean_squared_error_f64_2:
  "mean_squared_error_f64 [a1, a2] [p1, p2] =
     Inr (f64_div_count
            (f64_add (f64_add (Finite 0) (f64_square (f64 (a1 - p1))))
                     (f64_square (f64 (a2 - p2)))) 2)"
  by (simp add: mean_squared_error_f64_def pairwise_sum.simps numeral_2_eq_2)

lemma f64_div_count_2: "f64_div_count (Finite x) 2 = f64 (x / real 2)"
  by simp

lemma abs_ex: "\<bar>1 :: real\<bar> = 1" "\<bar>- 3 :: real\<bar> = 3"
  by simp_all

lemma calculate_metrics_f64_example:
  "calculate_metrics_f64 [1, 5] [2, 2] = Inr (Finite 2, Finite (5035177455121576 / 2 ^ 51))"
proof -
  have mae: "mean_absolute_error_f64 [1, 5] [2, 2] = Inr (Finite 2)"
    by (simp only: mean_absolute_error_f64_2 f64_ex_sub1 f64_ex_sub3 np_abs.simps abs_ex
        f64_add.simps f64_ex_add1 f64_ex_add2 f64_div_count_2 f64_ex_div1)
  have mse: "mean_squared_error_f64 [1, 5] [2, 2] = Inr (Finite 5)"
    by (simp only: mean_squared_error_f64_2 f64_ex_sub4 f64_ex_sub2 f64_square.simps
        f64_ex_sq1 f64_ex_sq2 f64_add.simps f64_ex_add1 f64_ex_add3 f64_div_count_2 f64_ex_div2)
  show ?thesis
    by (simp only: calculate_metrics_f64_def mae mse sum.case f64_ex_sqrt)
qed

text \<open>
  Claim C5, as amended. For aligned sequences of the same positive length, MAE
  and RMSE as computed in binary64 are returned and are not negative: each is
  a real number from 0 on or +inf, never NaN. The exact values of the two
  formulas, without rounding, are not negative, RMSE is at least MAE, and the
  two are equal exactly when all absolute errors are the same.
\<close>

theorem mae_rmse_bound:
  assumes "length actual = length predicted" "actual \<noteq> []"
  shows "(\<exists>mae rmse. calculate_metrics_f64 actual predicted = Inr (mae, rmse)
            \<and> np_nonneg mae \<and> np_nonneg rmse)
     \<and> (\<exists>mae rmse mape. calculate_metrics actual predicted = Inr (mae, rmse, mape)
            \<and> 0 \<le> mae \<and> 0 \<le> rmse \<and> mae \<le> rmse
            \<and> (rmse = mae \<longleftrightarrow>
                 (\<forall>i < length actual. \<forall>j < length actual.
                    \<bar>actual ! i - predicted ! i\<bar> = \<bar>actual ! j - predicted ! j\<bar>)))"
  using calculate_metrics_f64_nonneg [OF assms] calculate_metrics_exact [OF assms]
  by (rule conjI)

theorem mae_rmse_bound_witness:
  "length [1, 5 :: real] = length [2, 2 :: real] \<and> [1, 5 :: real] \<noteq> []
   \<and> calculate_metrics_f64 [1, 5] [2, 2]
       = Inr (Finite 2, Finite (5035177455121576 / 2 ^ 51))
   \<and> np_nonneg (Finite 2) \<and> np_nonneg (Finite (5035177455121576 / 2 ^ 51))
   \<and> calculate_metrics [1, 5] [2, 2] = Inr (2, sqrt 5, Finite 80)
   \<and> (2 :: real) \<le> sqrt 5"
proof -
  have h1: "length [1, 5 :: real] = length [2, 2 :: real]" by simp
  have h2: "[1, 5 :: real] \<noteq> []" by simp
  have c: "calculate_metrics [1, 5] [2, 2] = Inr (2, sqrt 5, Finite 80)"
    by (simp add: calculate_metrics_def mean_absolute_error_def mean_squared_error_def
        series_mean_def np_div_def)
  note f = calculate_metrics_f64_example
  from mae_rmse_bound [OF h1 h2] obtain fmae frmse mae rmse mape where
    fm: "calculate_metrics_f64 [1, 5] [2, 2] = Inr (fmae, frmse)"
    and nn: "np_nonneg fmae" "np_nonneg frmse"
    and m: "calculate_metrics [1, 5] [2, 2] = Inr (mae, rmse, mape)" and le: "mae \<le> rmse"
    by blast
  from fm f have "fmae = Finite 2" "frmse = Finite (5035177455121576 / 2 ^ 51)"
    by simp_all
  with nn have n2: "np_nonneg (Finite 2)" "np_nonneg (Finite (5035177455121576 / 2 ^ 51))"
    by simp_all
  from m c have "mae = 2" "rmse = sqrt 5" by simp_all
  with le have "(2 :: real) \<le> sqrt 5" by simp
  with h1 h2 f n2 c show ?thesis by (intro conjI)
qed

text \<open>The double nearest to 0.1 is 3602879701896397 / 2 ^ 55.\<close>

lemma f64_tenth: "f64 (3602879701896397 / 2 ^ 55) = Finite (3602879701896397 / 2 ^ 55)"
  by (rule f64_val [where e = "- 4" and m = 7205759403792794]) simp_all

lemma f64_mae_step0: "f64 (0 + 3602879701896397 / 2 ^ 55) = Finite (3602879701896397 / 2 ^ 55)"
  by (rule f64_val [where e = "- 4" and m = 7205759403792794]) simp_all

lemma f64_mae_step1: "f64 (3602879701896397 / 2 ^ 55 + 3602879701896397 / 2 ^ 55) = Finite (3602879701896397 / 2 ^ 54)"
  by (rule f64_val [where e = "- 3" and m = 7205759403792794]) simp_all

lemma f64_mae_step2: "f64 (3602879701896397 / 2 ^ 54 + 3602879701896397 / 2 ^ 55) = Finite (1351079888211149 / 2 ^ 52)"
  by (rule f64_val_tie [where e = "- 2" and f = 5404319552844595]) simp_all

lemma f64_mae_step3: "f64 (1351079888211149 / 2 ^ 52 / real 3) = Finite (7205759403792795 / 2 ^ 56)"
  by (rule f64_val [where e = "- 4" and m = 7205759403792795]) simp_all

lemma f64_mse_sub: "f64 (3602879701896397 / 2 ^ 55 - 0) = Finite (3602879701896397 / 2 ^ 55)"
  by (rule f64_val [where e = "- 4" and m = 7205759403792794]) simp_all

lemma f64_mse_square: "f64 ((3602879701896397 / 2 ^ 55) * (3602879701896397 / 2 ^ 55)) = Finite (1441151880758559 / 2 ^ 57)"
  by (rule f64_val [where e = "- 7" and m = 5764607523034236]) simp_all

lemma f64_mse_step0: "f64 (0 + 1441151880758559 / 2 ^ 57) = Finite (1441151880758559 / 2 ^ 57)"
  by (rule f64_val [where e = "- 7" and m = 5764607523034236]) simp_all

lemma f64_mse_step1: "f64 (1441151880758559 / 2 ^ 57 + 1441151880758559 / 2 ^ 57) = Finite (1441151880758559 / 2 ^ 56)"
  by (rule f64_val [where e = "- 6" and m = 5764607523034236]) simp_all

lemma f64_mse_step2: "f64 (1441151880758559 / 2 ^ 56 + 1441151880758559 / 2 ^ 57) = Finite (4323455642275677 / 2 ^ 57)"
  by (rule f64_val [where e = "- 6" and m = 8646911284551354]) simp_all

lemma f64_mse_step3: "f64 (4323455642275677 / 2 ^ 57 / real 3) = Finite (1441151880758559 / 2 ^ 57)"
  by (rule f64_val [where e = "- 7" and m = 5764607523034236]) simp_all

lemma f64_mae_sub: "f64 (0 - 3602879701896397 / 2 ^ 55) = Finite (- (3602879701896397 / 2 ^ 55))"
proof -
  have "f64 (- (0 - 3602879701896397 / 2 ^ 55)) = Finite (3602879701896397 / 2 ^ 55)"
    using f64_tenth by simp
  then show ?thesis by (rule f64_neg)
qed

lemma f64_rmse_step:
  "f64 (sqrt (1441151880758559 / 2 ^ 57)) = Finite (7205759403792794 / 2 ^ 56)"
proof -
  define r :: real where "r = sqrt (1441151880758559 / 2 ^ 57)"
  have lo: "(7205759403792794 - 1 / 2) / 2 ^ 56 < r"
    unfolding r_def by (rule real_less_rsqrt) (simp add: power2_eq_square)
  have hi: "r < (7205759403792794 + 1 / 2) / 2 ^ 56"
    unfolding r_def by (rule real_less_lsqrt) (simp_all add: power2_eq_square)
  have "f64 r = Finite (7205759403792794 / 2 ^ 56)"
  proof (rule f64_val [where e = "- 4" and m = 7205759403792794])
    show "0 < r" using lo by simp
    show "2 powi (- 4) \<le> r" using lo by simp
    show "r < 2 powi (- 4 + 1)" using hi by simp
    show "real_of_int 7205759403792794 - 1 / 2 < r / 2 powi (- 4 - 52)" using lo by simp
    show "r / 2 powi (- 4 - 52) < real_of_int 7205759403792794 + 1 / 2" using hi by simp
  qed simp_all
  then show ?thesis by (simp only: r_def)
qed

lemma mean_absolute_error_f64_3:
  "mean_absolute_error_f64 [a1, a2, a3] [p1, p2, p3] =
     Inr (f64_div_count
            (f64_add (f64_add (f64_add (Finite 0) (np_abs (f64 (p1 - a1))))
                              (np_abs (f64 (p2 - a2))))
                     (np_abs (f64 (p3 - a3)))) 3)"
  by (simp add: mean_absolute_error_f64_def pairwise_sum.simps numeral_3_eq_3)

lemma mean_squared_error_f64_3:
  "mean_squared_error_f64 [a1, a2, a3] [p1, p2, p3] =
     Inr (f64_div_count
            (f64_add (f64_add (f64_add (Finite 0) (f64_square (f64 (a1 - p1))))
                              (f64_square (f64 (a2 - p2))))
                     (f64_square (f64 (a3 - p3)))) 3)"
  by (simp add: mean_squared_error_f64_def pairwise_sum.simps numeral_3_eq_3)

lemma f64_div_count_3: "f64_div_count (Finite x) 3 = f64 (x / real 3)"
  by simp

lemma abs_tenth: "\<bar>- (3602879701896397 / 2 ^ 55)\<bar> = (3602879701896397 / 2 ^ 55 :: real)"
  by simp

lemma mae_tenth:
  "mean_absolute_error_f64
     [3602879701896397 / 2 ^ 55, 3602879701896397 / 2 ^ 55, 3602879701896397 / 2 ^ 55] [0, 0, 0]
   = Inr (Finite (7205759403792795 / 2 ^ 56))"
  by (simp only: mean_absolute_error_f64_3 f64_mae_sub np_abs.simps abs_tenth f64_add.simps
      f64_mae_step0 f64_mae_step1 f64_mae_step2 f64_div_count_3 f64_mae_step3)

lemma mse_tenth:
  "mean_squared_error_f64
     [3602879701896397 / 2 ^ 55, 3602879701896397 / 2 ^ 55, 3602879701896397 / 2 ^ 55] [0, 0, 0]
   = Inr (Finite (1441151880758559 / 2 ^ 57))"
  by (simp only: mean_squared_error_f64_3 f64_mse_sub f64_square.simps f64_add.simps
      f64_mse_square f64_mse_step0 f64_mse_step1 f64_mse_step2 f64_div_count_3 f64_mse_step3)

lemma rmse_tenth:
  "f64_sqrt (Finite (1441151880758559 / 2 ^ 57)) = Finite (7205759403792794 / 2 ^ 56)"
proof -
  have "\<not> (1441151880758559 / 2 ^ 57 :: real) < 0" by simp
  then show ?thesis by (simp only: f64_sqrt.simps if_False f64_rmse_step)
qed

text \<open>
  Claim C5 as stated fails for the computed values. The actual values are
  three times the double nearest to 0.1 and the predictions are 0, so all
  absolute errors are equal; the computed MAE is 0.10000000000000002 and the
  computed RMSE is 0.1, which is less.
\<close>

theorem mae_rmse_float_counterexample:
  "f64 (3602879701896397 / 2 ^ 55) = Finite (3602879701896397 / 2 ^ 55)
   \<and> calculate_metrics_f64
        [3602879701896397 / 2 ^ 55, 3602879701896397 / 2 ^ 55, 3602879701896397 / 2 ^ 55]
        [0, 0, 0]
      = Inr (Finite (7205759403792795 / 2 ^ 56), Finite (7205759403792794 / 2 ^ 56))
   \<and> (7205759403792794 / 2 ^ 56 :: real) < 7205759403792795 / 2 ^ 56"
proof -
  have c: "calculate_metrics_f64
        [3602879701896397 / 2 ^ 55, 3602879701896397 / 2 ^ 55, 3602879701896397 / 2 ^ 55]
        [0, 0, 0]
      = Inr (Finite (7205759403792795 / 2 ^ 56), Finite (7205759403792794 / 2 ^ 56))"
    by (simp only: calculate_metrics_f64_def mae_tenth mse_tenth sum.case rmse_tenth)
  have lt: "(7205759403792794 / 2 ^ 56 :: real) < 7205759403792795 / 2 ^ 56" by simp
  from f64_tenth c lt show ?thesis by (intro conjI)
qed

lemma np_add_PosInf:
  "acc \<noteq> NaN \<Longrightarrow> acc \<noteq> NegInf \<Longrightarrow> np_add acc PosInf = PosInf"
  by (cases acc) simp_all

lemma np_add_PosInf_left:
  "v \<noteq> NaN \<Longrightarrow> v \<noteq> NegInf \<Longrightarrow> np_add PosInf v = PosInf"
  by (cases v) simp_all

lemma np_add_keeps:
  "acc \<noteq> NaN \<Longrightarrow> acc \<noteq> NegInf \<Longrightarrow> v \<noteq> NaN \<Longrightarrow> v \<noteq> NegInf \<Longrightarrow>
     np_add acc v \<noteq> NaN \<and> np_add acc v \<noteq> NegInf"
  by (cases acc; cases v) simp_all

lemma foldl_np_add_PosInf:
  assumes "\<forall>v \<in> set ws. v \<noteq> NaN \<and> v \<noteq> NegInf" "acc \<noteq> NaN" "acc \<noteq> NegInf"
    "acc = PosInf \<or> PosInf \<in> set ws"
  shows "foldl np_add acc ws = PosInf"
  using assms
proof (induction ws arbitrary: acc)
  case Nil
  then show ?case by simp
next
  case (Cons v ws)
  have v: "v \<noteq> NaN" "v \<noteq> NegInf" using Cons.prems(1) by simp_all
  have k: "np_add acc v \<noteq> NaN" "np_add acc v \<noteq> NegInf"
    using np_add_keeps [OF Cons.prems(2,3) v] by simp_all
  have "np_add acc v = PosInf \<or> PosInf \<in> set ws"
  proof (cases "acc = PosInf")
    case True
    then show ?thesis using np_add_PosInf_left [OF v] by simp
  next
    case False
    with Cons.prems(4) have "v = PosInf \<or> PosInf \<in> set ws" by auto
    then show ?thesis using np_add_PosInf [OF Cons.prems(2,3)] by auto
  qed
  with Cons.IH [of "np_add acc v"] Cons.prems(1) k show ?case by simp
qed

lemma foldl_np_add_Finite:
  "foldl np_add (Finite acc) (map Finite rs) = Finite (acc + sum_list rs)"
  by (induction rs arbitrary: acc) (simp_all add: add.assoc)

lemma np_abs_div_cases:
  "np_abs (np_div x a) =
     (if a \<noteq> 0 then Finite \<bar>x / a\<bar> else if x = 0 then NaN else PosInf)"
  by (simp add: np_div_def)

lemma sum_list_zip_nth:
  assumes "length xs = length ys"
  shows "sum_list (map f (zip xs ys)) = (\<Sum>i < length xs. (f (xs ! i, ys ! i) :: real))"
proof -
  have "sum_list (map f (zip xs ys)) = (\<Sum>i = 0..<length xs. map f (zip xs ys) ! i)"
    using assms by (simp add: sum_list_sum_nth)
  also have "\<dots> = (\<Sum>i = 0..<length xs. f (xs ! i, ys ! i))"
    using assms by (intro sum.cong) simp_all
  finally show ?thesis by (simp add: atLeast0LessThan)
qed

text \<open>
  Claim C4, as amended. For aligned sequences of the same positive length the
  computation returns MAE, RMSE and MAPE and raises nothing, whatever the
  actual values are. A zero actual value with a prediction that differs from it
  makes the MAPE infinite; with no zero actual value the MAPE is the finite
  mean of the absolute relative errors, times 100.
\<close>

theorem mape_zero_actual:
  assumes "length actual = length predicted" "actual \<noteq> []"
  shows "\<exists>mae rmse mape. calculate_metrics actual predicted = Inr (mae, rmse, mape)
    \<and> mae = (\<Sum>i < length actual. \<bar>actual ! i - predicted ! i\<bar>) / real (length actual)
    \<and> rmse = sqrt ((\<Sum>i < length actual. (actual ! i - predicted ! i)\<^sup>2)
                    / real (length actual))
    \<and> ((\<exists>i < length actual. actual ! i = 0 \<and> predicted ! i \<noteq> 0) \<longrightarrow> mape = PosInf)
    \<and> ((\<forall>i < length actual. actual ! i \<noteq> 0) \<longrightarrow>
          mape = Finite (100 * (\<Sum>i < length actual.
                                   \<bar>(actual ! i - predicted ! i) / actual ! i\<bar>)
                         / real (length actual)))"
proof -
  define vs where
    "vs = map (\<lambda>(a, p). np_abs (np_div (a - p) a)) (zip actual predicted)"
  define mape where "mape = np_scale (series_mean vs) 100"
  have lv: "length vs = length actual" using assms(1) by (simp add: vs_def)
  have nth: "vs ! i = np_abs (np_div (actual ! i - predicted ! i) (actual ! i))"
    if "i < length actual" for i
    using that assms(1) by (simp add: vs_def)
  have cm: "calculate_metrics actual predicted =
     Inr ((\<Sum>i < length actual. \<bar>actual ! i - predicted ! i\<bar>) / real (length actual),
          sqrt ((\<Sum>i < length actual. (actual ! i - predicted ! i)\<^sup>2) / real (length actual)),
          mape)"
    unfolding calculate_metrics_Inr [OF assms] mape_def vs_def
    by (simp add: sum_list_zip_nth [OF assms(1)])
  have inf: "mape = PosInf" if "\<exists>i < length actual. actual ! i = 0 \<and> predicted ! i \<noteq> 0"
  proof -
    from that obtain i where i: "i < length actual" "actual ! i = 0" "predicted ! i \<noteq> 0"
      by blast
    define ws where "ws = filter (\<lambda>v. v \<noteq> NaN) vs"
    have "vs ! i = PosInf" using i by (simp add: nth np_abs_div_cases)
    then have "PosInf \<in> set vs" using i(1) lv by (metis nth_mem)
    then have mem: "PosInf \<in> set ws" by (simp add: ws_def)
    have ok: "\<forall>v \<in> set ws. v \<noteq> NaN \<and> v \<noteq> NegInf"
      by (auto simp: ws_def vs_def np_abs_div_cases split: if_splits)
    have "foldl np_add (Finite 0) ws = PosInf"
      by (rule foldl_np_add_PosInf [OF ok]) (simp_all add: mem)
    moreover have "ws \<noteq> []" using mem by auto
    ultimately have "series_mean vs = PosInf"
      by (simp add: series_mean_def ws_def [symmetric])
    then show ?thesis by (simp add: mape_def)
  qed
  have fin: "mape = Finite (100 * (\<Sum>i < length actual.
                 \<bar>(actual ! i - predicted ! i) / actual ! i\<bar>) / real (length actual))"
    if nz: "\<forall>i < length actual. actual ! i \<noteq> 0"
  proof -
    define rs where "rs = map (\<lambda>(a, p). \<bar>(a - p) / a\<bar>) (zip actual predicted)"
    have "\<forall>(a, p) \<in> set (zip actual predicted). a \<noteq> 0"
      using nz by (auto simp: in_set_zip)
    then have "vs = map Finite rs"
      by (auto simp: vs_def rs_def np_abs_div_cases)
    moreover have "rs \<noteq> []" using assms by (auto simp: rs_def)
    moreover have "length rs = length actual" using assms(1) by (simp add: rs_def)
    ultimately have "series_mean vs = Finite (sum_list rs / real (length actual))"
      by (simp add: series_mean_def foldl_np_add_Finite filter_map comp_def)
    moreover have "sum_list rs = (\<Sum>i < length actual. \<bar>(actual ! i - predicted ! i) / actual ! i\<bar>)"
      unfolding rs_def by (simp add: sum_list_zip_nth [OF assms(1)])
    ultimately show ?thesis by (simp add: mape_def)
  qed
  from cm inf fin show ?thesis by blast
qed

theorem mape_zero_actual_witness:
  "length [0, 4 :: real] = length [1, 3 :: real] \<and> [0, 4 :: real] \<noteq> []
   \<and> calculate_metrics [0, 4] [1, 3] = Inr (1, 1, PosInf)"
proof -
  have h1: "length [0, 4 :: real] = length [1, 3 :: real]" by simp
  have h2: "[0, 4 :: real] \<noteq> []" by simp
  from mape_zero_actual [OF h1 h2] obtain mae rmse mape where
    c: "calculate_metrics [0, 4] [1, 3] = Inr (mae, rmse, mape)"
    and m: "mae = (\<Sum>i < length [0, 4 :: real]. \<bar>[0, 4] ! i - [1, 3] ! i\<bar>) / real (length [0, 4 :: real])"
    and r: "rmse = sqrt ((\<Sum>i < length [0, 4 :: real]. ([0, 4] ! i - [1, 3] ! i)\<^sup>2)
                    / real (length [0, 4 :: real]))"
    and p: "(\<exists>i < length [0, 4 :: real]. [0, 4 :: real] ! i = 0 \<and> [1, 3 :: real] ! i \<noteq> 0) \<longrightarrow> mape = PosInf"
    by blast
  have "\<exists>i < length [0, 4 :: real]. [0, 4 :: real] ! i = 0 \<and> [1, 3 :: real] ! i \<noteq> 0"
    by (rule exI [of _ 0]) simp
  with p have "mape = PosInf" by blast
  moreover have "mae = 1" using m by (simp add: lessThan_Suc eval_nat_numeral)
  moreover have "rmse = 1" using r by (simp add: lessThan_Suc eval_nat_numeral)
  ultimately show ?thesis using c h1 h2 by simp
qed

text \<open>
  Claim C4 as stated fails: two days without sales in the actual values do not
  stop the computation with a division error. The three metrics are returned,
  the MAPE as the float infinity.
\<close>

theorem mape_division_by_zero_counterexample:
  "calculate_metrics [0, 0, 8] [4, 4, 4] = Inr (4, 4, PosInf)"
  by (simp add: calculate_metrics_def mean_absolute_error_def mean_squared_error_def
      series_mean_def np_div_def)

section \<open>Preparation of the time series\<close>

lemma seasonal_decompose_short:
  "length x < 2 * period \<Longrightarrow> seasonal_decompose x period = Inl ValueError"
  by (simp add: seasonal_decompose_def)

lemma seasonal_decompose_long:
  assumes "2 * period \<le> length x" "0 < period"
  shows "\<exists>d. seasonal_decompose x period = Inr d \<and> length (trend d) = length x
            \<and> length (seasonal d) = length x \<and> length (resid d) = length x"
  using assms
  by (simp add: seasonal_decompose_def Let_def convolution_filter_def)

text \<open>
  Claim C8, as amended. The preparation fails with ValueError when the table
  is empty or its order dates span fewer than 14 days, two full cycles of 7
  days; on a span of 14 days or more it yields the daily series and its
  decomposition, whose three components have one row per day. The failure on a
  short span comes from the decomposition, not from building the series.
\<close>

theorem time_series_preparation_two_cycles:
  "(df = [] \<or> Max (order_date ` set df) - Min (order_date ` set df) + 1 < 14
      \<longrightarrow> time_series_preparation df = Inl ValueError)
   \<and> (df \<noteq> [] \<and> 14 \<le> Max (order_date ` set df) - Min (order_date ` set df) + 1
      \<longrightarrow> (\<exists>s d. time_series_preparation df = Inr (s, d)
             \<and> daily_sales df = Inr s
             \<and> seasonal_decompose (map snd s) 7 = Inr d
             \<and> length (trend d) = length s \<and> length (seasonal d) = length s
             \<and> length (resid d) = length s))"
proof (cases "df = []")
  case True
  then show ?thesis by (simp add: time_series_preparation_def daily_sales_def)
next
  case False
  from daily_sales_length [OF False] obtain s where
    s: "daily_sales df = Inr s"
    and l: "int (length s) = Max (order_date ` set df) - Min (order_date ` set df) + 1"
    by blast
  show ?thesis
  proof (cases "Max (order_date ` set df) - Min (order_date ` set df) + 1 < 14")
    case True
    with l have "length (map snd s) < 2 * 7" by simp
    then have "seasonal_decompose (map snd s) 7 = Inl ValueError"
      by (rule seasonal_decompose_short)
    then have "time_series_preparation df = Inl ValueError"
      by (simp add: time_series_preparation_def s)
    with True show ?thesis by simp
  next
    case long: False
    with l have "2 * 7 \<le> length (map snd s)" by simp
    moreover have "(0::nat) < 7" by simp
    ultimately obtain d where
      d: "seasonal_decompose (map snd s) 7 = Inr d" "length (trend d) = length s"
         "length (seasonal d) = length s" "length (resid d) = length s"
      using seasonal_decompose_long [of 7 "map snd s"] by auto
    then have "time_series_preparation df = Inr (s, d)"
      by (simp add: time_series_preparation_def s)
    with s d long False show ?thesis by auto
  qed
qed

theorem time_series_preparation_two_cycles_witness:
  "time_series_preparation
     [\<lparr>order_id = 1, order_date = 0, customer_id = 1, product_id = 1, category = ''a'',
        price = 2, quantity = 1\<rparr>,
      \<lparr>order_id = 2, order_date = 13, customer_id = 2, product_id = 1, category = ''a'',
        price = 5, quantity = 1\<rparr>] \<noteq> Inl ValueError
   \<and> time_series_preparation
     [\<lparr>order_id = 1, order_date = 0, customer_id = 1, product_id = 1, category = ''a'',
        price = 2, quantity = 1\<rparr>,
      \<lparr>order_id = 2, order_date = 12, customer_id = 2, product_id = 1, category = ''a'',
        price = 5, quantity = 1\<rparr>] = Inl ValueError"
proof -
  let ?a = "[\<lparr>order_id = 1, order_date = 0, customer_id = 1, product_id = 1, category = ''a'',
        price = 2, quantity = 1\<rparr>,
      \<lparr>order_id = 2, order_date = 13, customer_id = 2, product_id = 1, category = ''a'',
        price = 5, quantity = 1 :: real\<rparr>]"
  let ?b = "[\<lparr>order_id = 1, order_date = 0, customer_id = 1, product_id = 1, category = ''a'',
        price = 2, quantity = 1\<rparr>,
      \<lparr>order_id = 2, order_date = 12, customer_id = 2, product_id = 1, category = ''a'',
        price = 5, quantity = 1 :: real\<rparr>]"
  have a: "?a \<noteq> [] \<and> 14 \<le> Max (order_date ` set ?a) - Min (order_date ` set ?a) + 1"
    by simp
  have b: "?b = [] \<or> Max (order_date ` set ?b) - Min (order_date ` set ?b) + 1 < 14"
    by simp
  from time_series_preparation_two_cycles [of ?a] a
  obtain s d where "time_series_preparation ?a = Inr (s, d)" by blast
  then have 1: "time_series_preparation ?a \<noteq> Inl ValueError" by simp
  from time_series_preparation_two_cycles [of ?b] b
  have 2: "time_series_preparation ?b = Inl ValueError" by blast
  from 1 2 show ?thesis by blast
qed

text \<open>
  Claim C8 as stated fails on a table whose orders span ten days, more than one
  cycle of 7 days: the daily series is built, with its ten rows, and the
  decomposition then rejects it.
\<close>

theorem time_series_preparation_counterexample:
  "daily_sales
     [\<lparr>order_id = 1, order_date = 0, customer_id = 1, product_id = 1, category = ''a'',
        price = 2, quantity = 1\<rparr>,
      \<lparr>order_id = 2, order_date = 9, customer_id = 2, product_id = 1, category = ''a'',
        price = 5, quantity = 1\<rparr>]
     = Inr [(0, 2), (1, 0), (2, 0), (3, 0), (4, 0), (5, 0), (6, 0), (7, 0), (8, 0), (9, 5)]
   \<and> time_series_preparation
     [\<lparr>order_id = 1, order_date = 0, customer_id = 1, product_id = 1, category = ''a'',
        price = 2, quantity = 1\<rparr>,
      \<lparr>order_id = 2, order_date = 9, customer_id = 2, product_id = 1, category = ''a'',
        price = 5, quantity = 1\<rparr>] = Inl ValueError"
proof -
  let ?df = "[\<lparr>order_id = 1, order_date = 0, customer_id = 1, product_id = 1, category = ''a'',
        price = 2, quantity = 1\<rparr>,
      \<lparr>order_id = 2, order_date = 9, customer_id = 2, product_id = 1, category = ''a'',
        price = 5, quantity = 1 :: real\<rparr>]"
  have ne: "?df \<noteq> []" by simp
  have d: "daily_sales ?df
     = Inr [(0, 2), (1, 0), (2, 0), (3, 0), (4, 0), (5, 0), (6, 0), (7, 0), (8, 0), (9, 5)]"
    unfolding daily_sales_rows [OF ne] by (simp add: upto_rec1)
  have "time_series_preparation ?df = Inl ValueError"
    unfolding time_series_preparation_def d by (simp add: seasonal_decompose_def)
  with d show ?thesis by blast
qed

section \<open>Quantile bins\<close>

lemma qcut_unfold:
  "qcut x q labels =
     (if x = [] then Inl ValueError
      else let bins = bin_edges x q
           in if \<not> distinct bins \<and> length bins \<noteq> 2 then Inl ValueError
              else if length labels \<noteq> length bins - 1 then Inl ValueError
              else Inr (map (\<lambda>v. let ids = bin_id bins v
                                 in if ids = 0 \<or> ids = length bins then None
                                    else Some (labels ! (ids - 1)))
                            x))"
  by (simp add: qcut_def qcut_with_def bins_to_cuts_def Let_def)

lemma rfm_scores_unfold:
  "rfm_scores df =
     (let r = rfm df in
      case qcut (map (\<lambda>c. real_of_int (recency c)) r) 5 [5, 4, 3, 2, 1 :: nat] of
        Inl e \<Rightarrow> Inl e
      | Inr rs \<Rightarrow>
     (case qcut (map (\<lambda>c. real (frequency c)) r) 5 [1, 2, 3, 4, 5 :: nat] of
        Inl e \<Rightarrow> Inl e
      | Inr fs \<Rightarrow>
     (case qcut (map monetary r) 5 [1, 2, 3, 4, 5 :: nat] of
        Inl e \<Rightarrow> Inl e
      | Inr ms \<Rightarrow>
          Inr (map (\<lambda>(c, rs', fs', ms').
                      \<lparr>customer = customer c, recency = recency c,
                       frequency = frequency c, monetary = monetary c,
                       recency_score = rs', frequency_score = fs',
                       monetary_score = ms',
                       rfm_score = score_str rs' @ score_str fs' @ score_str ms'\<rparr>)
                   (zip r (zip rs (zip fs ms)))))))"
  unfolding rfm_scores_def rfm_scores_with_def qcut_def ..










lemma searchsorted_mono: "u \<le> v \<Longrightarrow> searchsorted bins u \<le> searchsorted bins v"
proof -
  assume uv: "u \<le> v"
  let ?k = "length (takeWhile (\<lambda>b. b < u) bins)"
  have "?k \<le> length (takeWhile (\<lambda>b. b < v) bins)"
  proof (rule length_takeWhile_less_P_nth)
    fix i assume "i < ?k"
    then have "takeWhile (\<lambda>b. b < u) bins ! i \<in> set (takeWhile (\<lambda>b. b < u) bins)"
      by simp
    then have "takeWhile (\<lambda>b. b < u) bins ! i < u" by (rule set_takeWhileD [THEN conjunct2])
    moreover have "takeWhile (\<lambda>b. b < u) bins ! i = bins ! i"
      using \<open>i < ?k\<close> by (rule takeWhile_nth)
    ultimately show "bins ! i < v" using uv by simp
  next
    show "?k \<le> length bins" by (rule length_takeWhile_le)
  qed
  then show ?thesis by (simp add: searchsorted_def)
qed

lemma searchsorted_le:
  assumes "i < length bins" "v \<le> bins ! i"
  shows "searchsorted bins v \<le> i"
proof (rule ccontr)
  assume "\<not> searchsorted bins v \<le> i"
  then have lt: "i < length (takeWhile (\<lambda>b. b < v) bins)" by (simp add: searchsorted_def)
  then have "takeWhile (\<lambda>b. b < v) bins ! i \<in> set (takeWhile (\<lambda>b. b < v) bins)" by simp
  then have "takeWhile (\<lambda>b. b < v) bins ! i < v" by (rule set_takeWhileD [THEN conjunct2])
  moreover have "takeWhile (\<lambda>b. b < v) bins ! i = bins ! i" using lt by (rule takeWhile_nth)
  ultimately show False using assms(2) by simp
qed

lemma searchsorted_pos:
  assumes "bins \<noteq> []" "bins ! 0 < v"
  shows "1 \<le> searchsorted bins v"
proof -
  from assms obtain b bs where "bins = b # bs" "b < v" by (cases bins) auto
  then show ?thesis by (simp add: searchsorted_def)
qed



section \<open>A small table of two customers\<close>

lemma rfm_example:
  "rfm [\<lparr>order_id = 1, order_date = 0, customer_id = 1, product_id = 1, category = ''a'',
          price = 1, quantity = 1\<rparr>,
        \<lparr>order_id = 2, order_date = 3, customer_id = 2, product_id = 1, category = ''a'',
          price = 2, quantity = 1\<rparr>,
        \<lparr>order_id = 3, order_date = 5, customer_id = 2, product_id = 2, category = ''b'',
          price = 3, quantity = 1\<rparr>]
   = [\<lparr>customer = 1, recency = 5, frequency = 1, monetary = 1\<rparr>,
      \<lparr>customer = 2, recency = 0, frequency = 2, monetary = 5\<rparr>]"
  by (simp add: rfm_def)

lemma qcut_example_recency:
  "qcut [5, 0] 5 [l1, l2, l3, l4, l5] = Inr [Some l5, Some l1]"
  by (simp add: qcut_unfold bin_edges_def quantile_def bin_id_def searchsorted_def Let_def upt_rec)

lemma qcut_example_frequency:
  "qcut [1, 2] 5 [l1, l2, l3, l4, l5] = Inr [Some l1, Some l5]"
  by (simp add: qcut_unfold bin_edges_def quantile_def bin_id_def searchsorted_def Let_def upt_rec)

lemma qcut_example_monetary:
  "qcut [1, 5] 5 [l1, l2, l3, l4, l5] = Inr [Some l1, Some l5]"
  by (simp add: qcut_unfold bin_edges_def quantile_def bin_id_def searchsorted_def Let_def upt_rec)

lemma rfm_scores_example:
  "rfm_scores [\<lparr>order_id = 1, order_date = 0, customer_id = 1, product_id = 1, category = ''a'',
          price = 1, quantity = 1\<rparr>,
        \<lparr>order_id = 2, order_date = 3, customer_id = 2, product_id = 1, category = ''a'',
          price = 2, quantity = 1\<rparr>,
        \<lparr>order_id = 3, order_date = 5, customer_id = 2, product_id = 2, category = ''b'',
          price = 3, quantity = 1\<rparr>]
   = Inr [\<lparr>customer = 1, recency = 5, frequency = 1, monetary = 1,
           recency_score = Some 1, frequency_score = Some 1, monetary_score = Some 1,
           rfm_score = ''111''\<rparr>,
          \<lparr>customer = 2, recency = 0, frequency = 2, monetary = 5,
           recency_score = Some 5, frequency_score = Some 5, monetary_score = Some 5,
           rfm_score = ''555''\<rparr>]"
  unfolding rfm_scores_unfold rfm_example
  by (simp add: Let_def qcut_example_recency qcut_example_frequency qcut_example_monetary
      score_str_def str_nat.simps)

section \<open>RFM scores follow the order of the values\<close>



text \<open>Any edges that start at the least value and end at the greatest.\<close>

lemma bin_id_range_edges:
  assumes "v \<in> set x" "0 < q" "q < length bins"
    "bins ! 0 = Min (set x)" "bins ! q = Max (set x)"
  shows "1 \<le> bin_id bins v \<and> bin_id bins v \<le> q"
proof (cases "v = bins ! 0")
  case True
  then show ?thesis using assms(2) by (simp add: bin_id_def)
next
  case False
  have "Min (set x) \<le> v" using assms(1) by simp
  with False have "bins ! 0 < v" by (simp add: assms(4))
  moreover have "bins \<noteq> []" using assms(3) by auto
  ultimately have lo: "1 \<le> searchsorted bins v" by (intro searchsorted_pos)
  have "v \<le> Max (set x)" using assms(1) by simp
  then have "v \<le> bins ! q" by (simp add: assms(5))
  with assms(3) have "searchsorted bins v \<le> q" by (intro searchsorted_le)
  with lo False show ?thesis by (simp add: bin_id_def)
qed

lemma bin_id_mono_edges:
  assumes "u \<in> set x" "v \<in> set x" "u \<le> v" "0 < q" "q < length bins"
    "bins ! 0 = Min (set x)" "bins ! q = Max (set x)"
  shows "bin_id bins u \<le> bin_id bins v"
proof (cases "u = bins ! 0")
  case True
  then show ?thesis
    using bin_id_range_edges [OF assms(2,4,5,6,7)] by (simp add: bin_id_def)
next
  case False
  have "Min (set x) \<le> u" using assms(1) by simp
  with False have "bins ! 0 < u" by (simp add: assms(6))
  with assms(3) have "v \<noteq> bins ! 0" by auto
  with False show ?thesis using searchsorted_mono [OF assms(3)] by (simp add: bin_id_def)
qed

lemma qcut_with_InrD:
  assumes "qcut_with E x q labels = Inr sc"
  shows "x \<noteq> [] \<and> length labels = length (E x q) - 1
       \<and> sc = map (\<lambda>v. let ids = bin_id (E x q) v
                        in if ids = 0 \<or> ids = length (E x q) then None
                           else Some (labels ! (ids - 1))) x"
  using assms
  by (auto simp: qcut_with_def bins_to_cuts_def split: if_splits)

lemma qcut_with_length: "qcut_with E x q labels = Inr sc \<Longrightarrow> length sc = length x"
  using qcut_with_InrD [of E x q labels sc] by simp

lemma qcut_with_edges_length:
  assumes "qcut_with E x 5 labels = Inr sc" "length labels = 5"
  shows "length (E x 5) = 6"
proof -
  from qcut_with_InrD [OF assms(1)] have "length labels = length (E x 5) - 1" by simp
  with assms(2) show ?thesis by linarith
qed

lemma qcut_with_score:
  assumes "qcut_with E x 5 labels = Inr sc" "length labels = 5" "i < length x"
    "E x 5 ! 0 = Min (set x)" "E x 5 ! 5 = Max (set x)"
  shows "sc ! i = Some (labels ! (bin_id (E x 5) (x ! i) - 1))
       \<and> 1 \<le> bin_id (E x 5) (x ! i) \<and> bin_id (E x 5) (x ! i) \<le> 5"
proof -
  have len: "length (E x 5) = 6" by (rule qcut_with_edges_length [OF assms(1,2)])
  from qcut_with_InrD [OF assms(1)]
  have sc: "sc = map (\<lambda>v. let ids = bin_id (E x 5) v
                        in if ids = 0 \<or> ids = length (E x 5) then None
                           else Some (labels ! (ids - 1))) x"
    by simp
  have v: "x ! i \<in> set x" using assms(3) by simp
  have q: "(0::nat) < 5" "5 < length (E x 5)" by (simp_all add: len)
  from bin_id_range_edges [OF v q assms(4,5)]
  have r: "1 \<le> bin_id (E x 5) (x ! i)" "bin_id (E x 5) (x ! i) \<le> 5" by simp_all
  then show ?thesis using assms(3) by (simp add: sc Let_def len)
qed

lemma labels_increasing:
  "1 \<le> k \<Longrightarrow> k \<le> 5 \<Longrightarrow> [1, 2, 3, 4, 5 :: nat] ! (k - 1) = k"
proof -
  assume "1 \<le> k" "k \<le> 5"
  then have "k = 1 \<or> k = 2 \<or> k = 3 \<or> k = 4 \<or> k = 5" by arith
  then show ?thesis by auto
qed

lemma labels_decreasing:
  "1 \<le> k \<Longrightarrow> k \<le> 5 \<Longrightarrow> [5, 4, 3, 2, 1 :: nat] ! (k - 1) = 6 - k"
proof -
  assume "1 \<le> k" "k \<le> 5"
  then have "k = 1 \<or> k = 2 \<or> k = 3 \<or> k = 4 \<or> k = 5" by arith
  then show ?thesis by auto
qed

lemma qcut_with_increasing:
  assumes "qcut_with E x 5 [1, 2, 3, 4, 5 :: nat] = Inr sc" "i < length x" "j < length x"
    "E x 5 ! 0 = Min (set x)" "E x 5 ! 5 = Max (set x)"
  shows "\<exists>a b. sc ! i = Some a \<and> sc ! j = Some b \<and> 1 \<le> a \<and> a \<le> 5
           \<and> (x ! i \<le> x ! j \<longrightarrow> a \<le> b)"
proof -
  let ?id = "\<lambda>v. bin_id (E x 5) v"
  have l5: "length [1, 2, 3, 4, 5 :: nat] = 5" by simp
  from qcut_with_score [OF assms(1) l5 assms(2,4,5)]
  have i: "sc ! i = Some ([1, 2, 3, 4, 5] ! (?id (x ! i) - 1))" "1 \<le> ?id (x ! i)"
    "?id (x ! i) \<le> 5"
    by simp_all
  from qcut_with_score [OF assms(1) l5 assms(3,4,5)]
  have j: "sc ! j = Some ([1, 2, 3, 4, 5] ! (?id (x ! j) - 1))" "1 \<le> ?id (x ! j)"
    "?id (x ! j) \<le> 5"
    by simp_all
  have len: "length (E x 5) = 6" by (rule qcut_with_edges_length [OF assms(1) l5])
  have m: "x ! i \<le> x ! j \<longrightarrow> ?id (x ! i) \<le> ?id (x ! j)"
    using bin_id_mono_edges [of "x ! i" x "x ! j" 5 "E x 5"] assms(2-5) len by simp
  from i j m show ?thesis
    by (simp only: labels_increasing [OF i(2,3)] labels_increasing [OF j(2,3)]) simp
qed

lemma qcut_with_decreasing:
  assumes "qcut_with E x 5 [5, 4, 3, 2, 1 :: nat] = Inr sc" "i < length x" "j < length x"
    "E x 5 ! 0 = Min (set x)" "E x 5 ! 5 = Max (set x)"
  shows "\<exists>a b. sc ! i = Some a \<and> sc ! j = Some b \<and> 1 \<le> a \<and> a \<le> 5
           \<and> (x ! i \<le> x ! j \<longrightarrow> b \<le> a)"
proof -
  let ?id = "\<lambda>v. bin_id (E x 5) v"
  have l5: "length [5, 4, 3, 2, 1 :: nat] = 5" by simp
  from qcut_with_score [OF assms(1) l5 assms(2,4,5)]
  have i: "sc ! i = Some ([5, 4, 3, 2, 1] ! (?id (x ! i) - 1))" "1 \<le> ?id (x ! i)"
    "?id (x ! i) \<le> 5"
    by simp_all
  from qcut_with_score [OF assms(1) l5 assms(3,4,5)]
  have j: "sc ! j = Some ([5, 4, 3, 2, 1] ! (?id (x ! j) - 1))" "1 \<le> ?id (x ! j)"
    "?id (x ! j) \<le> 5"
    by simp_all
  have len: "length (E x 5) = 6" by (rule qcut_with_edges_length [OF assms(1) l5])
  have m: "x ! i \<le> x ! j \<longrightarrow> ?id (x ! i) \<le> ?id (x ! j)"
    using bin_id_mono_edges [of "x ! i" x "x ! j" 5 "E x 5"] assms(2-5) len by simp
  from i j m show ?thesis
    by (simp only: labels_decreasing [OF i(2,3)] labels_decreasing [OF j(2,3)]) auto
qed

text \<open>The RFM table has one row for each customer of the transaction table.\<close>

lemma rfm_customers: "map customer (rfm df) = sort (remdups (map customer_id df))"
  by (simp add: rfm_def Let_def comp_def)

lemma rfm_row_values:
  assumes "a \<in> set (rfm df)"
  shows "customer a \<in> customer_id ` set df
       \<and> recency a = Max (order_date ` set df)
                     - Max (order_date ` {t \<in> set df. customer_id t = customer a})
       \<and> frequency a = length (filter (\<lambda>t. customer_id t = customer a) df)
       \<and> monetary a = sum_list (map price (filter (\<lambda>t. customer_id t = customer a) df))"
proof -
  have e: "set (map order_date (filter (\<lambda>t. customer_id t = c) df))
          = order_date ` {t \<in> set df. customer_id t = c}" for c
    by auto
  have ex: "\<exists>c \<in> set xs. y = f c" if "y \<in> set (map f xs)"
    for y :: rfm_row and f and xs :: "nat list"
    using that by auto
  from ex [OF assms [unfolded rfm_def Let_def]] obtain c where
    c: "c \<in> set (sort (remdups (map customer_id df)))"
    and a: "a = \<lparr>customer = c,
          recency = Max (set (map order_date df))
                    - Max (set (map order_date (filter (\<lambda>t. customer_id t = c) df))),
          frequency = length (filter (\<lambda>t. customer_id t = c) df),
          monetary = sum_list (map price (filter (\<lambda>t. customer_id t = c) df))\<rparr>"
    by blast
  from a have v: "customer a = c"
    "recency a = Max (set (map order_date df))
                    - Max (set (map order_date (filter (\<lambda>t. customer_id t = c) df)))"
    "frequency a = length (filter (\<lambda>t. customer_id t = c) df)"
    "monetary a = sum_list (map price (filter (\<lambda>t. customer_id t = c) df))"
    by simp_all
  from c have "c \<in> customer_id ` set df" by simp
  with v show ?thesis by (simp only: e) simp
qed

lemma rfm_scores_with_InrD:
  assumes "rfm_scores_with E df = Inr rows"
  shows "\<exists>rs fs ms.
      qcut_with E (map (\<lambda>c. real_of_int (recency c)) (rfm df)) 5 [5, 4, 3, 2, 1 :: nat] = Inr rs
    \<and> qcut_with E (map (\<lambda>c. real (frequency c)) (rfm df)) 5 [1, 2, 3, 4, 5 :: nat] = Inr fs
    \<and> qcut_with E (map monetary (rfm df)) 5 [1, 2, 3, 4, 5 :: nat] = Inr ms
    \<and> length rows = length (rfm df)
    \<and> (\<forall>i < length (rfm df).
          customer (rows ! i) = customer (rfm df ! i)
        \<and> recency (rows ! i) = recency (rfm df ! i)
        \<and> frequency (rows ! i) = frequency (rfm df ! i)
        \<and> monetary (rows ! i) = monetary (rfm df ! i)
        \<and> recency_score (rows ! i) = rs ! i
        \<and> frequency_score (rows ! i) = fs ! i
        \<and> monetary_score (rows ! i) = ms ! i)"
proof -
  from assms obtain rs fs ms where
    r: "qcut_with E (map (\<lambda>c. real_of_int (recency c)) (rfm df)) 5 [5, 4, 3, 2, 1 :: nat] = Inr rs"
    and f: "qcut_with E (map (\<lambda>c. real (frequency c)) (rfm df)) 5 [1, 2, 3, 4, 5 :: nat] = Inr fs"
    and m: "qcut_with E (map monetary (rfm df)) 5 [1, 2, 3, 4, 5 :: nat] = Inr ms"
    and rows: "rows = map (\<lambda>(c, rs', fs', ms').
                      \<lparr>customer = customer c, recency = recency c,
                       frequency = frequency c, monetary = monetary c,
                       recency_score = rs', frequency_score = fs',
                       monetary_score = ms',
                       rfm_score = score_str rs' @ score_str fs' @ score_str ms'\<rparr>)
                   (zip (rfm df) (zip rs (zip fs ms)))"
    unfolding rfm_scores_with_def Let_def by (auto split: sum.splits)
  have l: "length rs = length (rfm df)" "length fs = length (rfm df)" "length ms = length (rfm df)"
    using qcut_with_length [OF r] qcut_with_length [OF f] qcut_with_length [OF m] by simp_all
  have "length rows = length (rfm df)" by (simp add: rows l)
  moreover have "\<forall>i < length (rfm df).
          customer (rows ! i) = customer (rfm df ! i)
        \<and> recency (rows ! i) = recency (rfm df ! i)
        \<and> frequency (rows ! i) = frequency (rfm df ! i)
        \<and> monetary (rows ! i) = monetary (rfm df ! i)
        \<and> recency_score (rows ! i) = rs ! i
        \<and> frequency_score (rows ! i) = fs ! i
        \<and> monetary_score (rows ! i) = ms ! i"
    by (simp add: rows l)
  ultimately show ?thesis using r f m by blast
qed


text \<open>
  Claim C7. The RFM table has one row for each customer of the transactions,
  and the recency of a customer is the number of days from that customer's
  latest order to the latest order date of the whole table. Whenever the
  scoring completes, whatever arithmetic produced the quantile edges, as long
  as they are sorted and run from the least to the greatest value of the
  metric: the scored rows are the rows of the RFM table, every customer has the
  three scores, each in 1..5; a customer whose recency is not larger than
  another's has a recency score that is not smaller, while the frequency and
  monetary scores grow with the frequency and the monetary value.
\<close>

theorem rfm_scores_order:
  "map customer (rfm df) = sort (remdups (map customer_id df))
   \<and> (\<forall>a \<in> set (rfm df).
         recency a = Max (order_date ` set df)
                     - Max (order_date ` {t \<in> set df. customer_id t = customer a}))
   \<and> (\<forall>E rows.
         rfm_scores_with E df = Inr rows
         \<and> (\<forall>x \<in> {map (\<lambda>c. real_of_int (recency c)) (rfm df),
                   map (\<lambda>c. real (frequency c)) (rfm df),
                   map monetary (rfm df)}.
               sorted (E x 5) \<and> E x 5 ! 0 = Min (set x) \<and> E x 5 ! 5 = Max (set x))
         \<longrightarrow> map customer rows = map customer (rfm df)
           \<and> map recency rows = map recency (rfm df)
           \<and> map frequency rows = map frequency (rfm df)
           \<and> map monetary rows = map monetary (rfm df)
           \<and> (\<forall>a \<in> set rows. \<forall>b \<in> set rows. \<exists>ra rb fa fb ma mb.
                 recency_score a = Some ra \<and> recency_score b = Some rb
               \<and> frequency_score a = Some fa \<and> frequency_score b = Some fb
               \<and> monetary_score a = Some ma \<and> monetary_score b = Some mb
               \<and> ra \<in> {1..5} \<and> fa \<in> {1..5} \<and> ma \<in> {1..5}
               \<and> (recency a \<le> recency b \<longrightarrow> rb \<le> ra)
               \<and> (frequency a \<le> frequency b \<longrightarrow> fa \<le> fb)
               \<and> (monetary a \<le> monetary b \<longrightarrow> ma \<le> mb)))"
proof (intro conjI allI impI ballI)
  show "map customer (rfm df) = sort (remdups (map customer_id df))"
    by (rule rfm_customers)
next
  fix a assume "a \<in> set (rfm df)"
  from rfm_row_values [OF this]
  show "recency a = Max (order_date ` set df)
                     - Max (order_date ` {t \<in> set df. customer_id t = customer a})"
    by simp
next
  fix E :: edges and rows
  let ?r = "rfm df"
  let ?xr = "map (\<lambda>c. real_of_int (recency c)) ?r"
  let ?xf = "map (\<lambda>c. real (frequency c)) ?r"
  let ?xm = "map monetary ?r"
  assume h: "rfm_scores_with E df = Inr rows
         \<and> (\<forall>x \<in> {?xr, ?xf, ?xm}.
               sorted (E x 5) \<and> E x 5 ! 0 = Min (set x) \<and> E x 5 ! 5 = Max (set x))"
  then have sc: "rfm_scores_with E df = Inr rows"
    and er: "E ?xr 5 ! 0 = Min (set ?xr)" "E ?xr 5 ! 5 = Max (set ?xr)"
    and ef: "E ?xf 5 ! 0 = Min (set ?xf)" "E ?xf 5 ! 5 = Max (set ?xf)"
    and em: "E ?xm 5 ! 0 = Min (set ?xm)" "E ?xm 5 ! 5 = Max (set ?xm)"
    by simp_all
  from rfm_scores_with_InrD [OF sc] obtain rs fs ms where
    r: "qcut_with E ?xr 5 [5, 4, 3, 2, 1 :: nat] = Inr rs"
    and f: "qcut_with E ?xf 5 [1, 2, 3, 4, 5 :: nat] = Inr fs"
    and m: "qcut_with E ?xm 5 [1, 2, 3, 4, 5 :: nat] = Inr ms"
    and len: "length rows = length ?r"
    and row: "\<forall>i < length ?r.
          customer (rows ! i) = customer (?r ! i)
        \<and> recency (rows ! i) = recency (?r ! i)
        \<and> frequency (rows ! i) = frequency (?r ! i)
        \<and> monetary (rows ! i) = monetary (?r ! i)
        \<and> recency_score (rows ! i) = rs ! i
        \<and> frequency_score (rows ! i) = fs ! i
        \<and> monetary_score (rows ! i) = ms ! i"
    by blast
  show "map customer rows = map customer ?r" using len row by (simp add: list_eq_iff_nth_eq)
  show "map recency rows = map recency ?r" using len row by (simp add: list_eq_iff_nth_eq)
  show "map frequency rows = map frequency ?r" using len row by (simp add: list_eq_iff_nth_eq)
  show "map monetary rows = map monetary ?r" using len row by (simp add: list_eq_iff_nth_eq)
  fix a b assume "a \<in> set rows" "b \<in> set rows"
  then obtain i j where i: "i < length ?r" "rows ! i = a"
    and j: "j < length ?r" "rows ! j = b"
    using len by (auto simp: in_set_conv_nth)
  have li: "i < length ?xr" "i < length ?xf" "i < length ?xm" using i(1) by simp_all
  have lj: "j < length ?xr" "j < length ?xf" "j < length ?xm" using j(1) by simp_all
  from qcut_with_decreasing [OF r li(1) lj(1) er] obtain ra rb where
    R: "rs ! i = Some ra" "rs ! j = Some rb" "1 \<le> ra" "ra \<le> 5"
       "recency (?r ! i) \<le> recency (?r ! j) \<longrightarrow> rb \<le> ra"
    using i(1) j(1) by auto
  from qcut_with_increasing [OF f li(2) lj(2) ef] obtain fa fb where
    F: "fs ! i = Some fa" "fs ! j = Some fb" "1 \<le> fa" "fa \<le> 5"
       "frequency (?r ! i) \<le> frequency (?r ! j) \<longrightarrow> fa \<le> fb"
    using i(1) j(1) by auto
  from qcut_with_increasing [OF m li(3) lj(3) em] obtain ma mb where
    M: "ms ! i = Some ma" "ms ! j = Some mb" "1 \<le> ma" "ma \<le> 5"
       "monetary (?r ! i) \<le> monetary (?r ! j) \<longrightarrow> ma \<le> mb"
    using i(1) j(1) by auto
  from row i(1) have ai: "recency a = recency (?r ! i)" "frequency a = frequency (?r ! i)"
    "monetary a = monetary (?r ! i)" "recency_score a = rs ! i"
    "frequency_score a = fs ! i" "monetary_score a = ms ! i"
    unfolding i(2) [symmetric] by simp_all
  from row j(1) have bj: "recency b = recency (?r ! j)" "frequency b = frequency (?r ! j)"
    "monetary b = monetary (?r ! j)" "recency_score b = rs ! j"
    "frequency_score b = fs ! j" "monetary_score b = ms ! j"
    unfolding j(2) [symmetric] by simp_all
  show "\<exists>ra rb fa fb ma mb.
                 recency_score a = Some ra \<and> recency_score b = Some rb
               \<and> frequency_score a = Some fa \<and> frequency_score b = Some fb
               \<and> monetary_score a = Some ma \<and> monetary_score b = Some mb
               \<and> ra \<in> {1..5} \<and> fa \<in> {1..5} \<and> ma \<in> {1..5}
               \<and> (recency a \<le> recency b \<longrightarrow> rb \<le> ra)
               \<and> (frequency a \<le> frequency b \<longrightarrow> fa \<le> fb)
               \<and> (monetary a \<le> monetary b \<longrightarrow> ma \<le> mb)"
    unfolding ai bj using R F M by simp
qed


theorem rfm_scores_order_witness:
  "rfm_scores_with bin_edges
       [\<lparr>order_id = 1, order_date = 0, customer_id = 1, product_id = 1, category = ''a'',
          price = 1, quantity = 1\<rparr>,
        \<lparr>order_id = 2, order_date = 3, customer_id = 2, product_id = 1, category = ''a'',
          price = 2, quantity = 1\<rparr>,
        \<lparr>order_id = 3, order_date = 5, customer_id = 2, product_id = 2, category = ''b'',
          price = 3, quantity = 1\<rparr>]
   = Inr [\<lparr>customer = 1, recency = 5, frequency = 1, monetary = 1,
           recency_score = Some 1, frequency_score = Some 1, monetary_score = Some 1,
           rfm_score = ''111''\<rparr>,
          \<lparr>customer = 2, recency = 0, frequency = 2, monetary = 5,
           recency_score = Some 5, frequency_score = Some 5, monetary_score = Some 5,
           rfm_score = ''555''\<rparr>]
   \<and> bin_edges [5, 0] 5 = [0, 1, 2, 3, 4, 5]
   \<and> bin_edges [1, 2] 5 = [1, 6 / 5, 7 / 5, 8 / 5, 9 / 5, 2]
   \<and> bin_edges [1, 5] 5 = [1, 9 / 5, 13 / 5, 17 / 5, 21 / 5, 5]
   \<and> the (recency_score \<lparr>customer = 1, recency = 5, frequency = 1, monetary = 1,
           recency_score = Some 1, frequency_score = Some 1, monetary_score = Some 1,
           rfm_score = ''111''\<rparr>)
     \<le> the (recency_score \<lparr>customer = 2, recency = 0, frequency = 2, monetary = 5,
           recency_score = Some 5, frequency_score = Some 5, monetary_score = Some 5,
           rfm_score = ''555''\<rparr>)"
proof -
  let ?df = "[\<lparr>order_id = 1, order_date = 0, customer_id = 1, product_id = 1, category = ''a'',
          price = 1, quantity = 1\<rparr>,
        \<lparr>order_id = 2, order_date = 3, customer_id = 2, product_id = 1, category = ''a'',
          price = 2, quantity = 1\<rparr>,
        \<lparr>order_id = 3, order_date = 5, customer_id = 2, product_id = 2, category = ''b'',
          price = 3, quantity = 1 :: real\<rparr>]"
  let ?a = "\<lparr>customer = 2, recency = 0, frequency = 2, monetary = 5,
           recency_score = Some 5, frequency_score = Some 5, monetary_score = Some 5,
           rfm_score = ''555''\<rparr>"
  let ?b = "\<lparr>customer = 1, recency = 5, frequency = 1, monetary = 1,
           recency_score = Some 1, frequency_score = Some 1, monetary_score = Some 1,
           rfm_score = ''111''\<rparr>"
  have ex: "rfm_scores_with bin_edges ?df = Inr [?b, ?a]"
    using rfm_scores_example by (simp only: rfm_scores_def)
  have e1: "bin_edges [5, 0] 5 = [0, 1, 2, 3, 4, 5]"
    by (simp add: bin_edges_def quantile_def Let_def upt_rec)
  have e2: "bin_edges [1, 2] 5 = [1, 6 / 5, 7 / 5, 8 / 5, 9 / 5, 2]"
    by (simp add: bin_edges_def quantile_def Let_def upt_rec)
  have e3: "bin_edges [1, 5] 5 = [1, 9 / 5, 13 / 5, 17 / 5, 21 / 5, 5]"
    by (simp add: bin_edges_def quantile_def Let_def upt_rec)
  have c: "map (\<lambda>c. real_of_int (recency c)) (rfm ?df) = [5, 0]"
    "map (\<lambda>c. real (frequency c)) (rfm ?df) = [1, 2]"
    "map monetary (rfm ?df) = [1, 5]"
    unfolding rfm_example by simp_all
  have hyp: "\<forall>x \<in> {map (\<lambda>c. real_of_int (recency c)) (rfm ?df),
                   map (\<lambda>c. real (frequency c)) (rfm ?df),
                   map monetary (rfm ?df)}.
               sorted (bin_edges x 5) \<and> bin_edges x 5 ! 0 = Min (set x)
               \<and> bin_edges x 5 ! 5 = Max (set x)"
    unfolding c by (simp add: e1 e2 e3)
  from rfm_scores_order [of ?df] ex hyp
  have o: "\<forall>a \<in> set [?b, ?a]. \<forall>b \<in> set [?b, ?a]. \<exists>ra rb fa fb ma mb.
            recency_score a = Some ra \<and> recency_score b = Some rb
          \<and> frequency_score a = Some fa \<and> frequency_score b = Some fb
          \<and> monetary_score a = Some ma \<and> monetary_score b = Some mb
          \<and> ra \<in> {1..5} \<and> fa \<in> {1..5} \<and> ma \<in> {1..5}
          \<and> (recency a \<le> recency b \<longrightarrow> rb \<le> ra)
          \<and> (frequency a \<le> frequency b \<longrightarrow> fa \<le> fb)
          \<and> (monetary a \<le> monetary b \<longrightarrow> ma \<le> mb)"
    by blast
  have "?a \<in> set [?b, ?a]" "?b \<in> set [?b, ?a]" by simp_all
  with o obtain ra rb where
    "recency_score ?a = Some ra" "recency_score ?b = Some rb"
    "recency ?a \<le> recency ?b \<longrightarrow> rb \<le> ra"
    by blast
  then have "the (recency_score ?b) \<le> the (recency_score ?a)" by simp
  with ex e1 e2 e3 show ?thesis by (intro conjI)
qed

section \<open>Quantile edges of pairwise different values\<close>













section \<open>Bucket sizes\<close>










section \<open>Balanced buckets\<close>









section \<open>Tied values\<close>


end
